theory Spec2Isabelle
  imports Complex_Main "HOL-Library.AList" "HOL-Library.Char_ord" "HOL-Library.List_Lexorder"
    "HOL-Library.Multiset"
begin

text \<open>
  The analytics engine of the Reddit analytics repository (\<open>analytics.py\<close>, class
  \<open>RedditAnalytics\<close>): every method reads the posts and comments tables into pandas
  data frames and computes one summary. The model follows the methods line by line. What
  they call in pandas is written out; what they call in TextBlob, scikit-learn, networkx
  and Python's \<open>float\<close> is a parameter of the model, so that the theorems hold for
  whatever these compute. An exception is a value \<open>Inl e\<close> of the result.
\<close>

section \<open>Corpus accessor: HBase scans as data frames\<close>

text \<open>
  A table scan yields (row key, cells) pairs, each cell a column name with a string
  value. \<open>to_dataframe\<close> turns every pair into one dictionary that also carries the key
  under \<open>row_key\<close>; pandas then builds a frame whose columns are the union of the
  dictionaries' keys, a cell being NaN where a row has no value for a column. A cell is
  therefore \<open>Some s\<close> (a string) or \<open>None\<close> (NaN).
\<close>

type_synonym cell = "string option"
type_synonym row = "string \<rightharpoonup> string"
type_synonym dataframe = "row list"
type_synonym table = "(string \<times> row) list"

text \<open>The exceptions the methods can raise.\<close>

datatype error = KeyError | ValueError | AttributeError | IndexError

definition to_dataframe :: "table \<Rightarrow> dataframe" where
  "to_dataframe t = map (\<lambda>(key, data). [''row_key'' \<mapsto> key] ++ data) t"

text \<open>\<open>df.empty\<close>: every row has the \<open>row_key\<close> column, so a frame is empty exactly
  when it has no rows.\<close>

definition df_empty :: "dataframe \<Rightarrow> bool" where
  "df_empty df = (df = [])"

text \<open>\<open>col in df.columns\<close>: some row has a value for the column.\<close>

definition has_column :: "string \<Rightarrow> dataframe \<Rightarrow> bool" where
  "has_column c df = list_ex (\<lambda>r. r c \<noteq> None) df"

text \<open>\<open>df[col]\<close>: the column's cells in row order; KeyError for an unknown column.\<close>

definition column :: "string \<Rightarrow> dataframe \<Rightarrow> error + cell list" where
  "column c df = (if has_column c df then Inr (map (\<lambda>r. r c) df) else Inl KeyError)"

text \<open>\<open>Series.dropna()\<close>\<close>

definition dropna :: "'a option list \<Rightarrow> 'a list" where
  "dropna cs = map the (filter (\<lambda>c. c \<noteq> None) cs)"

text \<open>The slice \<open>xs[:n]\<close> and \<open>Series.head(n)\<close>: the first \<open>n\<close> elements, and for a
  negative \<open>n\<close> all but the last \<open>-n\<close>.\<close>

definition py_head :: "int \<Rightarrow> 'a list \<Rightarrow> 'a list" where
  "py_head n xs = (if 0 \<le> n then take (nat n) xs else take (length xs - nat (- n)) xs)"

section \<open>Frequency ranker\<close>

text \<open>The distinct values of a list in order of first appearance.\<close>

fun first_seen :: "'a list \<Rightarrow> 'a list" where
  "first_seen [] = []"
| "first_seen (x # xs) = x # first_seen (filter (\<lambda>y. y \<noteq> x) xs)"

text \<open>
  \<open>Series.value_counts()\<close>: NaN cells are dropped, every remaining distinct value is
  paired with its number of occurrences, and the pairs are ordered by count, largest
  first. The library does not fix the order of equal counts; the model keeps them in order
  of first appearance.
\<close>

definition value_counts :: "cell list \<Rightarrow> (string \<times> nat) list" where
  "value_counts cs =
     (let vs = dropna cs
      in sort_key (\<lambda>p. - int (snd p)) (map (\<lambda>v. (v, count_list vs v)) (first_seen vs)))"

text \<open>The body shared by \<open>get_top_subreddits\<close> and \<open>get_top_authors\<close>, which differ in
  the column only.\<close>

definition top_column :: "string \<Rightarrow> int \<Rightarrow> table \<Rightarrow> error + (string \<times> nat) list" where
  "top_column c limit posts =
     (let df = to_dataframe posts
      in if df_empty df then Inr []
         else case column c df of
                Inl e \<Rightarrow> Inl e
              | Inr cells \<Rightarrow> Inr (py_head limit (value_counts cells)))"

definition get_top_subreddits :: "int \<Rightarrow> table \<Rightarrow> error + (string \<times> nat) list" where
  "get_top_subreddits limit posts = top_column ''post_data:subreddit'' limit posts"

definition get_top_authors :: "int \<Rightarrow> table \<Rightarrow> error + (string \<times> nat) list" where
  "get_top_authors limit posts = top_column ''post_data:author'' limit posts"

section \<open>Engagement aggregator\<close>

text \<open>
  Python's \<open>float(s)\<close> on a string is a parameter \<open>pyfloat\<close> of the model: \<open>Some x\<close>
  when \<open>s\<close> is a literal of the number \<open>x\<close>, \<open>None\<close> when the conversion raises
  ValueError. Floating-point numbers are modelled by real numbers: rounding, infinities
  and the literals \<open>nan\<close> and \<open>inf\<close> are outside the model.

  \<open>Series.astype(float)\<close> converts every string cell and keeps NaN cells; one cell that
  does not convert fails the whole call.
\<close>

definition astype_float :: "(string \<Rightarrow> real option) \<Rightarrow> cell list \<Rightarrow> error + real option list" where
  "astype_float pyfloat cs =
     (if list_ex (\<lambda>c. case c of None \<Rightarrow> False | Some s \<Rightarrow> pyfloat s = None) cs
      then Inl ValueError
      else Inr (map (\<lambda>c. case c of None \<Rightarrow> None | Some s \<Rightarrow> pyfloat s) cs))"




section \<open>Sentiment classifier\<close>

text \<open>
  The result dictionary holds the three integer counts when nothing was classified and
  three floating-point ratios otherwise; the order is positive, neutral, negative.
  TextBlob's polarity scorer is the parameter \<open>polarity\<close>.
\<close>

datatype sentiment = Counts nat nat nat | Proportions real real real

definition classify :: "(string \<Rightarrow> real) \<Rightarrow> nat \<times> nat \<times> nat \<Rightarrow> string \<Rightarrow> nat \<times> nat \<times> nat" where
  "classify polarity acc text =
     (case acc of (positive, neutral, negative) \<Rightarrow>
        if polarity text > 0 then (positive + 1, neutral, negative)
        else if polarity text < 0 then (positive, neutral, negative + 1)
        else (positive, neutral + 1, negative))"

text \<open>The texts one frame contributes: none when it lacks the text column, else the
  column's cells without the NaN ones.\<close>

definition texts :: "string \<Rightarrow> dataframe \<Rightarrow> string list" where
  "texts text_col df = (if has_column text_col df then dropna (map (\<lambda>r. r text_col) df) else [])"

definition get_sentiment_trends :: "(string \<Rightarrow> real) \<Rightarrow> table \<Rightarrow> table \<Rightarrow> sentiment" where
  "get_sentiment_trends polarity posts comments =
     (let posts_df = to_dataframe posts;
          comments_df = to_dataframe comments
      in if df_empty posts_df \<and> df_empty comments_df then Counts 0 0 0
         else case foldl (classify polarity)
                    (foldl (classify polarity) (0, 0, 0) (texts ''post_data:title'' posts_df))
                    (texts ''comment_data:text'' comments_df) of
                (positive, neutral, negative) \<Rightarrow>
                  (let total = positive + neutral + negative
                   in if total > 0
                      then Proportions (real positive / real total) (real neutral / real total)
                             (real negative / real total)
                      else Counts positive neutral negative))"

section \<open>Topic extractor\<close>

text \<open>
  What \<open>get_topics\<close> calls in scikit-learn is a parameter of the model:
  \<^item> \<open>analyzer\<close>: CountVectorizer's analyzer with \<open>stop_words='english'\<close>: a title to
    its lower-cased tokens without the stop words;
  \<^item> \<open>RandomState\<close>: the generator a seed determines;
  \<^item> \<open>lda_components\<close>: the \<open>components_\<close> of LatentDirichletAllocation fitted to a
    term count matrix, for a generator and a number of components.
  The type \<open>'g\<close> is that of generator states.
\<close>

record 'g sklearn =
  analyzer :: "string \<Rightarrow> string list"
  RandomState :: "nat \<Rightarrow> 'g"
  lda_components :: "'g \<Rightarrow> nat \<Rightarrow> nat list list \<Rightarrow> real list list"

text \<open>\<open>check_random_state\<close>: an integer seed gives a fresh generator of its own, no seed
  gives the process-wide generator, whose state the run finds as it is.\<close>

definition check_random_state :: "'g sklearn \<Rightarrow> 'g \<Rightarrow> nat option \<Rightarrow> 'g" where
  "check_random_state lib global_rng random_state =
     (case random_state of None \<Rightarrow> global_rng | Some seed \<Rightarrow> RandomState lib seed)"

definition document_frequency :: "string list list \<Rightarrow> string \<Rightarrow> nat" where
  "document_frequency docs t = length (filter (\<lambda>d. t \<in> set d) docs)"

text \<open>
  \<open>CountVectorizer(stop_words='english', max_df=0.95, min_df=2).fit_transform\<close>: the
  feature names in sorted order and the matrix of term counts, one row per document. It
  raises ValueError when the documents give no term at all, when \<open>max_df\<close> stands for
  fewer documents than \<open>min_df\<close>, and when no term is left after pruning.
\<close>

definition fit_transform :: "(string \<Rightarrow> string list) \<Rightarrow> string list \<Rightarrow> error + string list \<times> nat list list" where
  "fit_transform analyze raw_documents =
     (let docs = map analyze raw_documents;
          vocabulary = first_seen (concat docs)
      in if vocabulary = [] then Inl ValueError
         else let n_doc = length docs;
                  max_doc_count = (95 / 100) * real n_doc;
                  min_doc_count = 2
              in if max_doc_count < min_doc_count then Inl ValueError
                 else let kept = sort (filter (\<lambda>t. real (document_frequency docs t) \<le> max_doc_count
                                           \<and> min_doc_count \<le> real (document_frequency docs t)) vocabulary)
                      in if kept = [] then Inl ValueError
                         else Inr (kept, map (\<lambda>d. map (\<lambda>t. count_list d t) kept) docs))"

text \<open>\<open>topic.argsort()\<close>: the indices by ascending weight; \<open>[:-6:-1]\<close> takes the last
  five of them, last first.\<close>

definition argsort :: "real list \<Rightarrow> nat list" where
  "argsort topic = sort_key (\<lambda>i. topic ! i) [0..<length topic]"

definition top_indices :: "real list \<Rightarrow> nat list" where
  "top_indices topic = take 5 (rev (argsort topic))"

definition top_words :: "string list \<Rightarrow> real list \<Rightarrow> error + string list" where
  "top_words feature_names topic =
     (if list_all (\<lambda>i. i < length feature_names) (top_indices topic)
      then Inr (map (\<lambda>i. feature_names ! i) (top_indices topic))
      else Inl IndexError)"

fun join :: "string \<Rightarrow> string list \<Rightarrow> string" where
  "join sep [] = []"
| "join sep [w] = w"
| "join sep (w # v # ws) = w @ sep @ join sep (v # ws)"

definition digit_char :: "nat \<Rightarrow> char" where
  "digit_char d = ''0123456789'' ! d"

fun str_nat :: "nat \<Rightarrow> string" where
  "str_nat n = (if n < 10 then [digit_char n] else str_nat (n div 10) @ [digit_char (n mod 10)])"

definition format_topic :: "nat \<Rightarrow> string list \<Rightarrow> string" where
  "format_topic topic_idx words = ''Topic '' @ str_nat (topic_idx + 1) @ '': '' @ join '', '' words"

text \<open>The loop over \<open>enumerate(lda.components_)\<close>, from index \<open>topic_idx\<close> on.\<close>

fun topic_lines :: "string list \<Rightarrow> nat \<Rightarrow> real list list \<Rightarrow> error + string list" where
  "topic_lines feature_names topic_idx [] = Inr []"
| "topic_lines feature_names topic_idx (topic # rest) =
     (case top_words feature_names topic of
        Inl e \<Rightarrow> Inl e
      | Inr words \<Rightarrow>
          (case topic_lines feature_names (topic_idx + 1) rest of
             Inl e \<Rightarrow> Inl e
           | Inr lines \<Rightarrow> Inr (format_topic topic_idx words # lines)))"

text \<open>
  \<open>get_topics\<close>, run with the process-wide generator in state \<open>global_rng\<close>. The fit
  rejects a number of components below one with a ValueError.
\<close>

definition get_topics :: "'g sklearn \<Rightarrow> 'g \<Rightarrow> int \<Rightarrow> table \<Rightarrow> error + string list" where
  "get_topics lib global_rng num_topics posts =
     (let df = to_dataframe posts
      in if \<not> has_column ''post_data:title'' df \<or> df_empty df then Inr []
         else case fit_transform (analyzer lib) (dropna (map (\<lambda>r. r ''post_data:title'') df)) of
                Inl e \<Rightarrow> Inl e
              | Inr (feature_names, X) \<Rightarrow>
                  if length X = 0 then Inr []
                  else if num_topics < 1 then Inl ValueError
                  else topic_lines feature_names 0
                         (lda_components lib (check_random_state lib global_rng (Some 42))
                            (nat num_topics) X))"

section \<open>Influence scorer and reply graph\<close>

text \<open>
  Dictionary keys and graph nodes are the author cells as the frame holds them. Python
  tests a cell for truth in \<open>if author\<close>: the empty string is false, every other string
  and NaN are true. The NaN cells of a frame are one object, so that NaN is one key.
\<close>

type_synonym node = cell

definition truthy :: "cell \<Rightarrow> bool" where
  "truthy c = (case c of None \<Rightarrow> True | Some s \<Rightarrow> s \<noteq> [])"

text \<open>\<open>row[col]\<close> for a row of \<open>df.iterrows()\<close>: KeyError when the frame has no such
  column.\<close>

definition getitem :: "dataframe \<Rightarrow> row \<Rightarrow> string \<Rightarrow> error + cell" where
  "getitem df r c = (if has_column c df then Inr (r c) else Inl KeyError)"

text \<open>
  A floating-point number: \<open>Some x\<close> for the number \<open>x\<close>, \<open>None\<close> for NaN (numbers are
  real numbers; rounding and infinities are outside the model). A sum or product with a
  NaN operand is NaN, and a comparison with a NaN operand is false.
\<close>

type_synonym pyfloat = "real option"

definition fadd :: "pyfloat \<Rightarrow> pyfloat \<Rightarrow> pyfloat" where
  "fadd a b = (case a of None \<Rightarrow> None | Some x \<Rightarrow> (case b of None \<Rightarrow> None | Some y \<Rightarrow> Some (x + y)))"

definition fmul :: "pyfloat \<Rightarrow> pyfloat \<Rightarrow> pyfloat" where
  "fmul a b = (case a of None \<Rightarrow> None | Some x \<Rightarrow> (case b of None \<Rightarrow> None | Some y \<Rightarrow> Some (x * y)))"

definition flt :: "pyfloat \<Rightarrow> pyfloat \<Rightarrow> bool" where
  "flt a b = (case a of None \<Rightarrow> False | Some x \<Rightarrow> (case b of None \<Rightarrow> False | Some y \<Rightarrow> x < y))"

text \<open>
  \<open>float(cell)\<close>: a string converts or raises ValueError; a NaN cell (a record without
  the field) converts to NaN without an exception, and the run goes on.
\<close>

definition float_cell :: "(string \<Rightarrow> real option) \<Rightarrow> cell \<Rightarrow> error + pyfloat" where
  "float_cell pyfloat c =
     (case c of
        None \<Rightarrow> Inr None
      | Some s \<Rightarrow> (case pyfloat s of None \<Rightarrow> Inl ValueError | Some x \<Rightarrow> Inr (Some x)))"

text \<open>The dictionary \<open>influence\<close>, in insertion order; \<open>influence.get(k, 0)\<close> and
  \<open>influence[k] = influence.get(k, 0) + x\<close>.\<close>

type_synonym influence = "(node \<times> pyfloat) list"

definition dict_get :: "influence \<Rightarrow> node \<Rightarrow> pyfloat" where
  "dict_get d k = (case map_of d k of None \<Rightarrow> Some 0 | Some v \<Rightarrow> v)"

definition dict_add :: "node \<Rightarrow> pyfloat \<Rightarrow> influence \<Rightarrow> influence" where
  "dict_add k x d = AList.update k (fadd (dict_get d k) x) d"

text \<open>A loop whose body may raise: the first error ends it.\<close>

primrec fold_err :: "('a \<Rightarrow> 's \<Rightarrow> error + 's) \<Rightarrow> 'a list \<Rightarrow> 's \<Rightarrow> error + 's" where
  "fold_err f [] s = Inr s"
| "fold_err f (x # xs) s = (case f x s of Inl e \<Rightarrow> Inl e | Inr s' \<Rightarrow> fold_err f xs s')"

definition post_step :: "(string \<Rightarrow> real option) \<Rightarrow> dataframe \<Rightarrow> row \<Rightarrow> influence \<Rightarrow> error + influence" where
  "post_step pyfloat posts_df r influence =
     (case getitem posts_df r ''post_data:author'' of
        Inl e \<Rightarrow> Inl e
      | Inr author \<Rightarrow>
     (case getitem posts_df r ''metrics:score'' of
        Inl e \<Rightarrow> Inl e
      | Inr score_cell \<Rightarrow>
     (case float_cell pyfloat score_cell of
        Inl e \<Rightarrow> Inl e
      | Inr score \<Rightarrow>
          Inr (if truthy author then dict_add author score influence else influence))))"

definition comment_step :: "(string \<Rightarrow> real option) \<Rightarrow> dataframe \<Rightarrow> row \<Rightarrow> influence \<Rightarrow> error + influence" where
  "comment_step pyfloat comments_df r influence =
     (case getitem comments_df r ''comment_data:author'' of
        Inl e \<Rightarrow> Inl e
      | Inr author \<Rightarrow>
     (case getitem comments_df r ''metrics:score'' of
        Inl e \<Rightarrow> Inl e
      | Inr score_cell \<Rightarrow>
     (case float_cell pyfloat score_cell of
        Inl e \<Rightarrow> Inl e
      | Inr score \<Rightarrow>
          Inr (if truthy author then dict_add author (fmul score (Some (1 / 2))) influence
               else influence))))"

text \<open>\<open>nx.DiGraph\<close>: nodes in insertion order, at most one edge per ordered pair.
  \<open>add_edge(u, v)\<close> adds the nodes it does not have yet, \<open>u\<close> first.\<close>

record digraph =
  nodes :: "node list"
  edges :: "(node \<times> node) list"

definition empty_graph :: digraph where
  "empty_graph = \<lparr>nodes = [], edges = []\<rparr>"

definition add_node :: "node \<Rightarrow> digraph \<Rightarrow> digraph" where
  "add_node v G = (if v \<in> set (nodes G) then G else G\<lparr>nodes := nodes G @ [v]\<rparr>)"

definition add_edge :: "node \<Rightarrow> node \<Rightarrow> digraph \<Rightarrow> digraph" where
  "add_edge u v G =
     (let G' = add_node v (add_node u G)
      in if (u, v) \<in> set (edges G') then G' else G'\<lparr>edges := edges G' @ [(u, v)]\<rparr>)"

text \<open>
  The body of the loop that builds the reply graph. \<open>parent_id.startswith\<close> on a NaN
  cell raises AttributeError. The parent is the first row whose \<open>comment_data:id\<close> is
  \<open>parent_id[3:]\<close>.
\<close>

definition edge_step :: "dataframe \<Rightarrow> row \<Rightarrow> digraph \<Rightarrow> error + digraph" where
  "edge_step comments_df r G =
     (case getitem comments_df r ''comment_data:author'' of
        Inl e \<Rightarrow> Inl e
      | Inr author \<Rightarrow>
     (case getitem comments_df r ''comment_data:parent_id'' of
        Inl e \<Rightarrow> Inl e
      | Inr parent_id \<Rightarrow>
          if truthy author \<and> truthy parent_id then
            (case parent_id of
               None \<Rightarrow> Inl AttributeError
             | Some pid \<Rightarrow>
                 if take 3 pid = ''t1_'' then
                   (if has_column ''comment_data:id'' comments_df then
                      (case filter (\<lambda>p. p ''comment_data:id'' = Some (drop 3 pid)) comments_df of
                         [] \<Rightarrow> Inr G
                       | parent # _ \<Rightarrow> Inr (add_edge author (parent ''comment_data:author'') G))
                    else Inl KeyError)
                 else Inr G)
          else Inr G))"

definition reply_graph :: "dataframe \<Rightarrow> error + digraph" where
  "reply_graph comments_df =
     (if \<not> df_empty comments_df then fold_err (edge_step comments_df) comments_df empty_graph
      else Inr empty_graph)"

text \<open>
  The dictionary \<open>influence\<close> before it is sorted. \<open>nx.betweenness_centrality\<close> is the
  parameter \<open>centrality\<close>: the centrality of a node of a graph; the dictionary networkx
  returns has the nodes of the graph as keys, in the graph's node order.
\<close>

definition influence_table ::
  "(string \<Rightarrow> real option) \<Rightarrow> (digraph \<Rightarrow> node \<Rightarrow> real) \<Rightarrow> dataframe \<Rightarrow> dataframe \<Rightarrow> error + influence" where
  "influence_table pyfloat centrality posts_df comments_df =
     (case (if \<not> df_empty posts_df then fold_err (post_step pyfloat posts_df) posts_df []
            else Inr []) of
        Inl e \<Rightarrow> Inl e
      | Inr influence1 \<Rightarrow>
     (case (if \<not> df_empty comments_df
            then fold_err (comment_step pyfloat comments_df) comments_df influence1
            else Inr influence1) of
        Inl e \<Rightarrow> Inl e
      | Inr influence2 \<Rightarrow>
     (case reply_graph comments_df of
        Inl e \<Rightarrow> Inl e
      | Inr G \<Rightarrow>
          Inr (if nodes G \<noteq> []
               then foldl (\<lambda>influence v. dict_add v (fmul (Some (centrality G v)) (Some 100)) influence)
                      influence2 (nodes G)
               else influence2))))"

text \<open>
  \<open>sorted(influence.items(), key=lambda x: x[1], reverse=True)\<close>. Python's sort is
  stable, also in reverse, and compares the keys with \<open><\<close> only. When no score is NaN
  the scores are totally ordered and the result is the one stable sort by descending
  score. A NaN score compares false with every score; the order of the result then
  depends on the runs and merges of the sort's implementation, which is the parameter
  \<open>nan_sorted\<close> of the model.
\<close>

definition sorted_by_score :: "(influence \<Rightarrow> influence) \<Rightarrow> influence \<Rightarrow> influence" where
  "sorted_by_score nan_sorted items =
     (if list_all (\<lambda>x. snd x \<noteq> None) items then sort_key (\<lambda>x. - the (snd x)) items
      else nan_sorted items)"

definition get_user_influence ::
  "(influence \<Rightarrow> influence) \<Rightarrow> (string \<Rightarrow> real option) \<Rightarrow> (digraph \<Rightarrow> node \<Rightarrow> real) \<Rightarrow> int \<Rightarrow>
     table \<Rightarrow> table \<Rightarrow> error + influence" where
  "get_user_influence nan_sorted pyfloat centrality limit posts comments =
     (let posts_df = to_dataframe posts;
          comments_df = to_dataframe comments
      in if df_empty posts_df \<and> df_empty comments_df then Inr []
         else case influence_table pyfloat centrality posts_df comments_df of
                Inl e \<Rightarrow> Inl e
              | Inr influence \<Rightarrow> Inr (py_head limit (sorted_by_score nan_sorted influence)))"

section \<open>Instances of the parameters for the worked examples\<close>

text \<open>
  The theorems below hold for every value of the parameters. The examples need concrete
  ones; these agree with the libraries on the inputs the examples use.
\<close>

text \<open>\<open>float\<close> on the decimal integer strings that \<open>str(score)\<close> writes into the
  tables; any string that is not of this form is taken not to convert.\<close>

definition digit_value :: "char \<Rightarrow> nat option" where
  "digit_value c =
     map_of [(CHR ''0'', 0), (CHR ''1'', 1), (CHR ''2'', 2), (CHR ''3'', 3), (CHR ''4'', 4),
             (CHR ''5'', 5), (CHR ''6'', 6), (CHR ''7'', 7), (CHR ''8'', 8), (CHR ''9'', 9)] c"

fun digits_value :: "nat \<Rightarrow> string \<Rightarrow> nat option" where
  "digits_value acc [] = Some acc"
| "digits_value acc (c # cs) =
     (case digit_value c of None \<Rightarrow> None | Some d \<Rightarrow> digits_value (10 * acc + d) cs)"

definition decimal_float :: "string \<Rightarrow> real option" where
  "decimal_float s =
     (case s of
        [] \<Rightarrow> None
      | c # cs \<Rightarrow>
          if c = CHR ''-'' then (if cs = [] then None else map_option (\<lambda>n. - real n) (digits_value 0 cs))
          else map_option real (digits_value 0 s))"

text \<open>
  Betweenness centrality as networkx computes it by default for a directed graph
  (normalised, end points not counted): the sum over the ordered pairs \<open>(s, t)\<close> of other
  nodes of the fraction of the shortest paths from \<open>s\<close> to \<open>t\<close> that pass through the
  node, divided by \<open>(n - 1) (n - 2)\<close> when the graph has more than two nodes. Shortest
  paths are counted as walks of the least length that reaches the target.
\<close>

definition successors :: "digraph \<Rightarrow> node \<Rightarrow> node list" where
  "successors G u = map snd (filter (\<lambda>e. fst e = u) (edges G))"

fun walks :: "digraph \<Rightarrow> nat \<Rightarrow> node \<Rightarrow> node \<Rightarrow> nat" where
  "walks G 0 s t = (if s = t then 1 else 0)"
| "walks G (Suc k) s t = sum_list (map (\<lambda>u. walks G k u t) (successors G s))"

definition distance :: "digraph \<Rightarrow> node \<Rightarrow> node \<Rightarrow> nat option" where
  "distance G s t = find (\<lambda>k. 0 < walks G k s t) [0..<length (nodes G)]"

definition shortest_paths :: "digraph \<Rightarrow> node \<Rightarrow> node \<Rightarrow> nat" where
  "shortest_paths G s t = (case distance G s t of None \<Rightarrow> 0 | Some d \<Rightarrow> walks G d s t)"

definition shortest_paths_through :: "digraph \<Rightarrow> node \<Rightarrow> node \<Rightarrow> node \<Rightarrow> nat" where
  "shortest_paths_through G s v t =
     (case distance G s v of None \<Rightarrow> 0 | Some a \<Rightarrow>
      case distance G v t of None \<Rightarrow> 0 | Some b \<Rightarrow>
      case distance G s t of None \<Rightarrow> 0 | Some c \<Rightarrow>
        if a + b = c then shortest_paths G s v * shortest_paths G v t else 0)"

definition betweenness_centrality :: "digraph \<Rightarrow> node \<Rightarrow> real" where
  "betweenness_centrality G v =
     (let n = length (nodes G);
          others = filter (\<lambda>u. u \<noteq> v) (nodes G);
          b = sum_list (concat (map (\<lambda>s. map (\<lambda>t.
                if s = t \<or> shortest_paths G s t = 0 then 0
                else real (shortest_paths_through G s v t) / real (shortest_paths G s t))
                others) others))
      in if n \<le> 2 then b else b / real ((n - 1) * (n - 2)))"

text \<open>
  CPython's \<open>list.sort\<close> with \<open>reverse=True\<close> on a list of fewer than 64 entries, where
  it is one binary insertion sort: the list is reversed; the run at its start is found
  (ascending: no entry is less than the one before it; or strictly descending, which is
  then reversed); every later entry is inserted into the sorted part before it at the
  place a binary search with \<open><\<close> gives; the result is reversed.
\<close>

fun ascending_run :: "pyfloat \<Rightarrow> (node \<times> pyfloat) list \<Rightarrow> nat" where
  "ascending_run prev [] = 0"
| "ascending_run prev (x # xs) = (if flt (snd x) prev then 0 else Suc (ascending_run (snd x) xs))"

fun descending_run :: "pyfloat \<Rightarrow> (node \<times> pyfloat) list \<Rightarrow> nat" where
  "descending_run prev [] = 0"
| "descending_run prev (x # xs) = (if flt (snd x) prev then Suc (descending_run (snd x) xs) else 0)"

definition first_run :: "(node \<times> pyfloat) list \<Rightarrow> (node \<times> pyfloat) list \<times> (node \<times> pyfloat) list" where
  "first_run xs =
     (case xs of
        [] \<Rightarrow> ([], [])
      | [x] \<Rightarrow> ([x], [])
      | x # y # ys \<Rightarrow>
          if flt (snd y) (snd x)
          then (let n = 2 + descending_run (snd y) ys in (rev (take n xs), drop n xs))
          else (let n = 2 + ascending_run (snd y) ys in (take n xs, drop n xs)))"

function binary_search :: "pyfloat \<Rightarrow> (node \<times> pyfloat) list \<Rightarrow> nat \<Rightarrow> nat \<Rightarrow> nat" where
  "binary_search pivot part l r =
     (if l < r
      then (let p = l + (r - l) div 2
            in if flt pivot (snd (part ! p)) then binary_search pivot part l p
               else binary_search pivot part (p + 1) r)
      else l)"
  by pat_completeness auto
termination
  by (relation "measure (\<lambda>(pivot, part, l, r). r - l)") auto

declare binary_search.simps [simp del]

definition binary_insert :: "(node \<times> pyfloat) list \<Rightarrow> node \<times> pyfloat \<Rightarrow> (node \<times> pyfloat) list" where
  "binary_insert part x =
     (let l = binary_search (snd x) part 0 (length part)
      in take l part @ x # drop l part)"

definition short_list_sorted :: "influence \<Rightarrow> influence" where
  "short_list_sorted items =
     (case first_run (rev items) of (run, rest) \<Rightarrow> rev (foldl binary_insert run rest))"

text \<open>An analyzer for titles of lower-case words separated by blanks: the words of two
  or more characters (the token pattern of CountVectorizer drops shorter ones).\<close>

fun words_from :: "string \<Rightarrow> string \<Rightarrow> string list" where
  "words_from w [] = (if w = [] then [] else [w])"
| "words_from w (c # cs) =
     (if c = CHR '' '' then (if w = [] then words_from [] cs else w # words_from [] cs)
      else words_from (w @ [c]) cs)"

definition blank_analyzer :: "string \<Rightarrow> string list" where
  "blank_analyzer title = filter (\<lambda>w. 2 \<le> length w) (words_from [] title)"

text \<open>A stand-in for the fitted topic model, of the shape the library returns: one row
  of weights per component, one weight per feature.\<close>

definition column_total :: "nat list list \<Rightarrow> nat \<Rightarrow> nat" where
  "column_total X j = sum_list (map (\<lambda>doc. doc ! j) X)"

definition example_components :: "nat \<Rightarrow> nat \<Rightarrow> nat list list \<Rightarrow> real list list" where
  "example_components g k X =
     map (\<lambda>i. map (\<lambda>j. real (column_total X j + (g + i + j) mod 3))
                 [0..<(case X of [] \<Rightarrow> 0 | doc # _ \<Rightarrow> length doc)])
         [0..<k]"

definition example_sklearn :: "nat sklearn" where
  "example_sklearn =
     \<lparr>analyzer = blank_analyzer, RandomState = (\<lambda>seed. seed),
      lda_components = example_components\<rparr>"

text \<open>A polarity scorer that knows two words.\<close>

definition example_polarity :: "string \<Rightarrow> real" where
  "example_polarity text =
     (if ''good'' \<in> set (words_from [] text) then 1 / 2
      else if ''bad'' \<in> set (words_from [] text) then - (1 / 2)
      else 0)"

section \<open>Notions the statements use\<close>

text \<open>The texts \<open>get_sentiment_trends\<close> classifies: the titles the posts carry, then
  the texts the comments carry.\<close>

definition classified_texts :: "table \<Rightarrow> table \<Rightarrow> string list" where
  "classified_texts posts comments =
     texts ''post_data:title'' (to_dataframe posts) @
     texts ''comment_data:text'' (to_dataframe comments)"


text \<open>The vocabulary that is left of the titles' terms after the cut-offs by document
  frequency: at least 2 documents, at most 95 in 100.\<close>

definition pruned_vocabulary :: "(string \<Rightarrow> string list) \<Rightarrow> string list \<Rightarrow> string list" where
  "pruned_vocabulary analyze raw_documents =
     filter (\<lambda>t. real (document_frequency (map analyze raw_documents) t)
                    \<le> (95 / 100) * real (length raw_documents)
                 \<and> 2 \<le> real (document_frequency (map analyze raw_documents) t))
       (first_seen (concat (map analyze raw_documents)))"

text \<open>What the library promises of the fitted model's \<open>components_\<close>: one row for each of
  the \<open>n_components\<close> topics.\<close>

definition one_row_per_component :: "'g sklearn \<Rightarrow> bool" where
  "one_row_per_component lib = (\<forall>g k X. length (lda_components lib g k X) = k)"

text \<open>The sum of floating-point numbers, from 0.\<close>

definition fsum :: "pyfloat list \<Rightarrow> pyfloat" where
  "fsum xs = foldr fadd xs (Some 0)"

text \<open>The score of a record as \<open>float\<close> reads it from a record on which it does not
  raise (NaN for a record without the field), and the sum of the scores of the records of
  a frame whose author cell is \<open>k\<close>.\<close>

definition score_of :: "(string \<Rightarrow> real option) \<Rightarrow> row \<Rightarrow> pyfloat" where
  "score_of pyfloat r = (case r ''metrics:score'' of None \<Rightarrow> None | Some s \<Rightarrow> pyfloat s)"

definition score_sum :: "(string \<Rightarrow> real option) \<Rightarrow> string \<Rightarrow> dataframe \<Rightarrow> node \<Rightarrow> pyfloat" where
  "score_sum pyfloat author_col df k =
     fsum (map (score_of pyfloat) (filter (\<lambda>r. r author_col = k) df))"

text \<open>What every sort promises of its result, whatever the comparisons say: it holds the
  entries of the list, each as often as the list.\<close>

definition rearranges :: "(influence \<Rightarrow> influence) \<Rightarrow> bool" where
  "rearranges nan_sorted = (\<forall>items. mset (nan_sorted items) = mset items)"

text \<open>Python's \<open><=\<close> on floating-point numbers, and a frame in which every record carries
  a score.\<close>

definition fle :: "pyfloat \<Rightarrow> pyfloat \<Rightarrow> bool" where
  "fle a b = (case a of None \<Rightarrow> False | Some x \<Rightarrow> (case b of None \<Rightarrow> False | Some y \<Rightarrow> x \<le> y))"


text \<open>The comment a parent id refers to: the first record with that id. The edge a
  comment record stands for, if any.\<close>

definition parent_of :: "dataframe \<Rightarrow> string \<Rightarrow> row option" where
  "parent_of comments_df pid = find (\<lambda>p. p ''comment_data:id'' = Some pid) comments_df"

definition reply_edge :: "dataframe \<Rightarrow> row \<Rightarrow> (node \<times> node) option" where
  "reply_edge comments_df r =
     (case r ''comment_data:parent_id'' of
        None \<Rightarrow> None
      | Some pid \<Rightarrow>
          if truthy (r ''comment_data:author'') \<and> take 3 pid = ''t1_'' then
            (case parent_of comments_df (drop 3 pid) of
               None \<Rightarrow> None
             | Some parent \<Rightarrow> Some (r ''comment_data:author'', parent ''comment_data:author''))
          else None)"

text \<open>A comments frame as \<open>store_comment\<close> writes it: every record carries an author, a
  parent id and an id, each possibly the empty string.\<close>

definition carries_reply_fields :: "dataframe \<Rightarrow> bool" where
  "carries_reply_fields comments_df =
     list_all (\<lambda>r. r ''comment_data:author'' \<noteq> None \<and> r ''comment_data:parent_id'' \<noteq> None
                  \<and> r ''comment_data:id'' \<noteq> None) comments_df"

text \<open>A frame as \<open>store_post\<close> and \<open>store_comment\<close> write it, as far as the score
  loops read it: every record carries the author field and a score that is a number.\<close>

definition carries_scores :: "(string \<Rightarrow> real option) \<Rightarrow> string \<Rightarrow> dataframe \<Rightarrow> bool" where
  "carries_scores pyfloat author_col df =
     list_all (\<lambda>r. r author_col \<noteq> None \<and>
                 (case r ''metrics:score'' of None \<Rightarrow> False | Some s \<Rightarrow> pyfloat s \<noteq> None)) df"

subsection \<open>Example corpora\<close>

text \<open>Two posts and a thread of three comments: bob comments on the post of alice, alice
  replies to bob, and carol replies to alice.\<close>

definition thread_posts :: table where
  "thread_posts =
     [(''post_p1'', [''post_data:id'' \<mapsto> ''p1'', ''post_data:author'' \<mapsto> ''alice'',
                     ''metrics:score'' \<mapsto> ''10'']),
      (''post_p2'', [''post_data:id'' \<mapsto> ''p2'', ''post_data:author'' \<mapsto> ''bob'',
                     ''metrics:score'' \<mapsto> ''20''])]"

definition thread_comments :: table where
  "thread_comments =
     [(''comment_c1_post_p1'',
         [''comment_data:id'' \<mapsto> ''c1'', ''comment_data:author'' \<mapsto> ''bob'',
          ''comment_data:parent_id'' \<mapsto> ''t3_p1'', ''metrics:score'' \<mapsto> ''4'']),
      (''comment_c2_post_p1'',
         [''comment_data:id'' \<mapsto> ''c2'', ''comment_data:author'' \<mapsto> ''alice'',
          ''comment_data:parent_id'' \<mapsto> ''t1_c1'', ''metrics:score'' \<mapsto> ''2'']),
      (''comment_c3_post_p1'',
         [''comment_data:id'' \<mapsto> ''c3'', ''comment_data:author'' \<mapsto> ''carol'',
          ''comment_data:parent_id'' \<mapsto> ''t1_c2'', ''metrics:score'' \<mapsto> ''6''])]"

text \<open>A comment stored with the empty string as author, and a reply of bob to it.\<close>

definition anonymous_thread :: table where
  "anonymous_thread =
     [(''comment_c1_post_p1'',
         [''comment_data:id'' \<mapsto> ''c1'', ''comment_data:author'' \<mapsto> '''',
          ''comment_data:parent_id'' \<mapsto> ''t3_p1'', ''metrics:score'' \<mapsto> ''10'']),
      (''comment_c2_post_p1'',
         [''comment_data:id'' \<mapsto> ''c2'', ''comment_data:author'' \<mapsto> ''bob'',
          ''comment_data:parent_id'' \<mapsto> ''t1_c1'', ''metrics:score'' \<mapsto> ''1''])]"

text \<open>Posts of a deleted account, of an author stored as the empty string, and a comment
  of the deleted account.\<close>

definition deleted_posts :: table where
  "deleted_posts =
     [(''post_p1'', [''post_data:id'' \<mapsto> ''p1'', ''post_data:author'' \<mapsto> ''[deleted]'',
                     ''metrics:score'' \<mapsto> ''7'']),
      (''post_p2'', [''post_data:id'' \<mapsto> ''p2'', ''post_data:author'' \<mapsto> '''',
                     ''metrics:score'' \<mapsto> ''3''])]"

definition deleted_comments :: table where
  "deleted_comments =
     [(''comment_c1_post_p1'',
         [''comment_data:id'' \<mapsto> ''c1'', ''comment_data:author'' \<mapsto> ''[deleted]'',
          ''comment_data:parent_id'' \<mapsto> ''t3_p1'', ''metrics:score'' \<mapsto> ''4''])]"



section \<open>Lists, slices and sorting\<close>

lemma set_first_seen: "set (first_seen xs) = set xs"
  by (induction xs rule: first_seen.induct) auto

lemma distinct_first_seen: "distinct (first_seen xs)"
  by (induction xs rule: first_seen.induct) (auto simp: set_first_seen)

lemma sorted_wrt_py_head: "sorted_wrt P xs \<Longrightarrow> sorted_wrt P (py_head n xs)"
  by (simp add: py_head_def sorted_wrt_take)

lemma set_py_head: "set (py_head n xs) \<subseteq> set xs"
  by (auto simp: py_head_def dest: in_set_takeD)

lemma count_list_dropna: "count_list (dropna cs) v = length (filter (\<lambda>c. c = Some v) cs)"
  by (induction cs) (auto simp: dropna_def)

lemma set_dropna: "set (dropna cs) = {v. Some v \<in> set cs}"
  by (induction cs) (auto simp: dropna_def)

section \<open>Frequency ranker: properties\<close>

lemma value_counts_sorted: "sorted_wrt (\<lambda>a b. snd b \<le> snd a) (value_counts cs)"
proof -
  let ?f = "\<lambda>p::string \<times> nat. - int (snd p)"
  have "sorted (map ?f (sort_key ?f xs))" for xs
    by (rule sorted_sort_key)
  then have "sorted_wrt (\<lambda>a b. ?f a \<le> ?f b) (value_counts cs)"
    by (simp add: value_counts_def Let_def sorted_map)
  then show ?thesis by simp
qed

lemma value_counts_distinct: "distinct (map fst (value_counts cs))"
proof -
  have "mset (value_counts cs) =
        mset (map (\<lambda>v. (v, count_list (dropna cs) v)) (first_seen (dropna cs)))"
    by (simp add: value_counts_def Let_def)
  from arg_cong[OF this, of "image_mset fst"]
  have "mset (map fst (value_counts cs)) = mset (first_seen (dropna cs))"
    by (simp add: multiset.map_comp comp_def)
  then show ?thesis
    using distinct_first_seen mset_eq_imp_distinct_iff by blast
qed

lemma value_counts_values: "set (map fst (value_counts cs)) = {v. Some v \<in> set cs}"
  by (simp add: value_counts_def Let_def set_first_seen set_dropna image_image)

lemma value_counts_count:
  "(v, n) \<in> set (value_counts cs) \<Longrightarrow> n = length (filter (\<lambda>c. c = Some v) cs)"
  by (auto simp: value_counts_def Let_def count_list_dropna)

text \<open>
  C9, as the code has it. \<open>get_top_subreddits\<close> and \<open>get_top_authors\<close> are
  \<open>top_column\<close> at their two columns. On an empty corpus the ranker returns the empty
  sequence. Whenever it returns, the result is a slice of a ranking \<open>full\<close> that is
  ordered by count, largest first, lists every value some record carries exactly once,
  and counts for each the records that carry it. A record without the field is counted
  nowhere; a record whose field is the empty string is counted, under the empty string.
\<close>

theorem top_column_ranked:
  "get_top_subreddits limit posts = top_column ''post_data:subreddit'' limit posts \<and>
   get_top_authors limit posts = top_column ''post_data:author'' limit posts \<and>
   top_column c limit [] = Inr [] \<and>
   (top_column c limit posts = Inr r \<longrightarrow>
     (\<exists>full. r = py_head limit full \<and>
        sorted_wrt (\<lambda>a b. snd b \<le> snd a) full \<and>
        sorted_wrt (\<lambda>a b. snd b \<le> snd a) r \<and>
        distinct (map fst full) \<and>
        set (map fst full) = {v. \<exists>record \<in> set (to_dataframe posts). record c = Some v} \<and>
        (\<forall>(v, n) \<in> set full.
           n = length (filter (\<lambda>record. record c = Some v) (to_dataframe posts)))))"
proof (intro conjI impI)
  show "get_top_subreddits limit posts = top_column ''post_data:subreddit'' limit posts"
    by (simp add: get_top_subreddits_def)
next
  show "get_top_authors limit posts = top_column ''post_data:author'' limit posts"
    by (simp add: get_top_authors_def)
next
  show "top_column c limit [] = Inr []"
    by (simp add: top_column_def to_dataframe_def df_empty_def)
next
  assume ret: "top_column c limit posts = Inr r"
  let ?df = "to_dataframe posts"
  let ?cells = "map (\<lambda>r. r c) ?df"
  let ?Q = "\<lambda>full. r = py_head limit full \<and>
        sorted_wrt (\<lambda>a b. snd b \<le> snd a) full \<and>
        sorted_wrt (\<lambda>a b. snd b \<le> snd a) r \<and>
        distinct (map fst full) \<and>
        set (map fst full) = {v. \<exists>record \<in> set ?df. record c = Some v} \<and>
        (\<forall>(v, n) \<in> set full. n = length (filter (\<lambda>record. record c = Some v) ?df))"
  show "\<exists>full. ?Q full"
  proof (cases "df_empty ?df")
    case True
    with ret have "r = []" by (simp add: top_column_def)
    with True have "?Q []" by (simp add: py_head_def df_empty_def)
    then show ?thesis ..
  next
    case False
    with ret have r: "r = py_head limit (value_counts ?cells)"
      by (auto simp: top_column_def column_def Let_def split: if_splits)
    have vals: "set (map fst (value_counts ?cells)) = {v. \<exists>record \<in> set ?df. record c = Some v}"
    proof -
      have "{v. Some v \<in> set ?cells} = {v. \<exists>record \<in> set ?df. record c = Some v}"
        by (auto simp: image_iff) metis
      then show ?thesis using value_counts_values[of ?cells] by simp
    qed
    have cnt: "\<forall>(v, n) \<in> set (value_counts ?cells).
                 n = length (filter (\<lambda>record. record c = Some v) ?df)"
    proof clarify
      fix v n assume "(v, n) \<in> set (value_counts ?cells)"
      then have "n = length (filter (\<lambda>x. x = Some v) ?cells)" by (rule value_counts_count)
      then show "n = length (filter (\<lambda>record. record c = Some v) ?df)"
        by (simp add: filter_map comp_def)
    qed
    have "?Q (value_counts ?cells)"
      using r value_counts_sorted[of ?cells] value_counts_distinct[of ?cells] vals cnt
        sorted_wrt_py_head[OF value_counts_sorted[of ?cells], of limit]
      by simp
    then show ?thesis ..
  qed
qed

theorem top_column_ranked_witness:
  "top_column ''post_data:subreddit'' 1
     [(''post_1'', [''post_data:subreddit'' \<mapsto> ''news'', ''post_data:author'' \<mapsto> ''alice'']),
      (''post_2'', [''post_data:subreddit'' \<mapsto> ''pics'', ''post_data:author'' \<mapsto> ''bob'']),
      (''post_3'', [''post_data:subreddit'' \<mapsto> ''pics'', ''post_data:author'' \<mapsto> ''alice''])]
     = Inr [(''pics'', 2)] \<and>
   (\<exists>full. [(''pics'', 2::nat)] = py_head 1 full \<and>
      sorted_wrt (\<lambda>a b. snd b \<le> snd a) full \<and>
      distinct (map fst full) \<and>
      set (map fst full) = {''news'', ''pics''})"
proof -
  let ?posts = "[(''post_1'', [''post_data:subreddit'' \<mapsto> ''news'', ''post_data:author'' \<mapsto> ''alice'']),
      (''post_2'', [''post_data:subreddit'' \<mapsto> ''pics'', ''post_data:author'' \<mapsto> ''bob'']),
      (''post_3'', [''post_data:subreddit'' \<mapsto> ''pics'', ''post_data:author'' \<mapsto> ''alice''])]"
  have run: "top_column ''post_data:subreddit'' 1 ?posts = Inr [(''pics'', 2)]"
    by (simp add: top_column_def to_dataframe_def df_empty_def column_def
        has_column_def value_counts_def dropna_def py_head_def)
  have vals: "{v. \<exists>record \<in> set (to_dataframe ?posts). record ''post_data:subreddit'' = Some v}
                = {''news'', ''pics''}"
    by (auto simp: to_dataframe_def)
  from top_column_ranked[of 1 ?posts "''post_data:subreddit''" "[(''pics'', 2)]"] run
  obtain full where f: "[(''pics'', 2::nat)] = py_head 1 full"
    "sorted_wrt (\<lambda>a b. snd b \<le> snd a) full" "distinct (map fst full)"
    "set (map fst full) = {v. \<exists>record \<in> set (to_dataframe ?posts). record ''post_data:subreddit'' = Some v}"
    by auto
  from f(4) vals have f4: "set (map fst full) = {''news'', ''pics''}" by (rule trans)
  from run f(1,2,3) f4 show ?thesis by (intro conjI exI[of _ full])
qed

text \<open>C9 as the specification words it does not hold: a record whose author is the
  empty string is counted, and the empty string is ranked with its count.\<close>

theorem get_top_authors_counts_empty_string:
  "get_top_authors 5
     [(''post_1'', [''post_data:subreddit'' \<mapsto> ''news'', ''post_data:author'' \<mapsto> '''']),
      (''post_2'', [''post_data:subreddit'' \<mapsto> ''news'', ''post_data:author'' \<mapsto> ''alice'']),
      (''post_3'', [''post_data:subreddit'' \<mapsto> ''pics'', ''post_data:author'' \<mapsto> ''''])]
   = Inr [('''', 2), (''alice'', 1)]"
  by (simp add: get_top_authors_def top_column_def to_dataframe_def df_empty_def column_def
      has_column_def value_counts_def dropna_def py_head_def)

section \<open>Sentiment classifier: properties\<close>

lemma foldl_classify:
  "foldl (classify polarity) (a, b, c) ts =
     (a + length (filter (\<lambda>t. polarity t > 0) ts),
      b + length (filter (\<lambda>t. polarity t = 0) ts),
      c + length (filter (\<lambda>t. polarity t < 0) ts))"
  by (induction ts arbitrary: a b c) (auto simp: classify_def)

lemma three_way_split:
  fixes f :: "'a \<Rightarrow> real"
  shows "length (filter (\<lambda>t. f t > 0) ts) + length (filter (\<lambda>t. f t = 0) ts)
         + length (filter (\<lambda>t. f t < 0) ts) = length ts"
  by (induction ts) auto

lemma texts_Nil: "texts c [] = []"
  by (simp add: texts_def has_column_def)

text \<open>
  C3. When at least one text is classified, the three values are the shares of the
  positive, neutral and negative texts among all classified texts of both corpora, and
  they sum to 1; when none is, the result is the three counts, all zero.
\<close>

theorem get_sentiment_trends_distribution:
  "(classified_texts posts comments \<noteq> [] \<longrightarrow>
      (\<exists>p u n. get_sentiment_trends polarity posts comments = Proportions p u n \<and>
         p + u + n = 1 \<and>
         p = real (length (filter (\<lambda>t. polarity t > 0) (classified_texts posts comments)))
               / real (length (classified_texts posts comments)) \<and>
         u = real (length (filter (\<lambda>t. polarity t = 0) (classified_texts posts comments)))
               / real (length (classified_texts posts comments)) \<and>
         n = real (length (filter (\<lambda>t. polarity t < 0) (classified_texts posts comments)))
               / real (length (classified_texts posts comments)))) \<and>
   (classified_texts posts comments = [] \<longrightarrow>
      get_sentiment_trends polarity posts comments = Counts 0 0 0)"
proof -
  let ?ts = "classified_texts posts comments"
  let ?pos = "length (filter (\<lambda>t. polarity t > 0) ?ts)"
  let ?neu = "length (filter (\<lambda>t. polarity t = 0) ?ts)"
  let ?neg = "length (filter (\<lambda>t. polarity t < 0) ?ts)"
  have total: "?pos + ?neu + ?neg = length ?ts" by (rule three_way_split)
  have loop: "foldl (classify polarity)
                (foldl (classify polarity) (0, 0, 0) (texts ''post_data:title'' (to_dataframe posts)))
                (texts ''comment_data:text'' (to_dataframe comments)) = (?pos, ?neu, ?neg)"
    unfolding foldl_append[symmetric] classified_texts_def[symmetric] by (simp add: foldl_classify)
  have both_empty: "df_empty (to_dataframe posts) \<and> df_empty (to_dataframe comments) \<Longrightarrow> ?ts = []"
    by (simp add: df_empty_def classified_texts_def texts_Nil)
  show ?thesis
  proof (intro conjI impI)
    assume ne: "?ts \<noteq> []"
    then have pos_total: "0 < ?pos + ?neu + ?neg" using total by simp
    from ne both_empty have run: "get_sentiment_trends polarity posts comments =
        Proportions (real ?pos / real (?pos + ?neu + ?neg)) (real ?neu / real (?pos + ?neu + ?neg))
          (real ?neg / real (?pos + ?neu + ?neg))"
      using pos_total by (auto simp: get_sentiment_trends_def Let_def loop)
    have sum1: "real ?pos / real (length ?ts) + real ?neu / real (length ?ts)
                 + real ?neg / real (length ?ts) = 1"
    proof -
      have "real ?pos + real ?neu + real ?neg = real (length ?ts)"
        using total by (metis of_nat_add)
      moreover have "real (length ?ts) \<noteq> 0" using ne by simp
      ultimately show ?thesis by (simp add: add_divide_distrib[symmetric])
    qed
    show "\<exists>p u n. get_sentiment_trends polarity posts comments = Proportions p u n \<and>
         p + u + n = 1 \<and>
         p = real ?pos / real (length ?ts) \<and> u = real ?neu / real (length ?ts) \<and>
         n = real ?neg / real (length ?ts)"
      using run sum1 total by simp
  next
    assume e: "?ts = []"
    show "get_sentiment_trends polarity posts comments = Counts 0 0 0"
      using loop by (simp add: get_sentiment_trends_def Let_def e)
  qed
qed

theorem get_sentiment_trends_distribution_witness:
  "classified_texts
     [(''post_1'', [''post_data:title'' \<mapsto> ''good news today'', ''post_data:author'' \<mapsto> ''alice''])]
     [(''comment_c1_post_1'', [''comment_data:text'' \<mapsto> ''bad idea'', ''comment_data:author'' \<mapsto> ''bob'']),
      (''comment_c2_post_1'', [''comment_data:text'' \<mapsto> '''', ''comment_data:author'' \<mapsto> ''carol'']),
      (''comment_c3_post_1'', [''comment_data:author'' \<mapsto> ''dave''])]
     = [''good news today'', ''bad idea'', ''''] \<and>
   (\<exists>p u n. get_sentiment_trends example_polarity
       [(''post_1'', [''post_data:title'' \<mapsto> ''good news today'', ''post_data:author'' \<mapsto> ''alice''])]
       [(''comment_c1_post_1'', [''comment_data:text'' \<mapsto> ''bad idea'', ''comment_data:author'' \<mapsto> ''bob'']),
        (''comment_c2_post_1'', [''comment_data:text'' \<mapsto> '''', ''comment_data:author'' \<mapsto> ''carol'']),
        (''comment_c3_post_1'', [''comment_data:author'' \<mapsto> ''dave''])]
       = Proportions p u n \<and> p + u + n = 1 \<and> p = 1 / 3 \<and> u = 1 / 3 \<and> n = 1 / 3) \<and>
   classified_texts [] [(''comment_c3_post_1'', [''comment_data:author'' \<mapsto> ''dave''])] = [] \<and>
   get_sentiment_trends example_polarity []
     [(''comment_c3_post_1'', [''comment_data:author'' \<mapsto> ''dave''])] = Counts 0 0 0"
proof -
  let ?posts = "[(''post_1'', [''post_data:title'' \<mapsto> ''good news today'', ''post_data:author'' \<mapsto> ''alice''])]"
  let ?comments = "[(''comment_c1_post_1'', [''comment_data:text'' \<mapsto> ''bad idea'', ''comment_data:author'' \<mapsto> ''bob'']),
      (''comment_c2_post_1'', [''comment_data:text'' \<mapsto> '''', ''comment_data:author'' \<mapsto> ''carol'']),
      (''comment_c3_post_1'', [''comment_data:author'' \<mapsto> ''dave''])]"
  let ?silent = "[(''comment_c3_post_1'', [''comment_data:author'' \<mapsto> ''dave''])]"
  have ts: "classified_texts ?posts ?comments = [''good news today'', ''bad idea'', '''']"
    by (simp add: classified_texts_def texts_def to_dataframe_def has_column_def dropna_def)
  have none: "classified_texts [] ?silent = []"
    by (simp add: classified_texts_def texts_def to_dataframe_def has_column_def dropna_def)
  have pol: "example_polarity ''good news today'' = 1 / 2" "example_polarity ''bad idea'' = - (1 / 2)"
    "example_polarity '''' = 0"
    by (simp_all add: example_polarity_def)
  from get_sentiment_trends_distribution[of ?posts ?comments example_polarity] ts
  obtain p u n where run: "get_sentiment_trends example_polarity ?posts ?comments = Proportions p u n"
    and s: "p + u + n = 1"
    and p: "p = real (length (filter (\<lambda>t. example_polarity t > 0) [''good news today'', ''bad idea'', ''''])) / real (length [''good news today'', ''bad idea'', ''''])"
    and u: "u = real (length (filter (\<lambda>t. example_polarity t = 0) [''good news today'', ''bad idea'', ''''])) / real (length [''good news today'', ''bad idea'', ''''])"
    and n: "n = real (length (filter (\<lambda>t. example_polarity t < 0) [''good news today'', ''bad idea'', ''''])) / real (length [''good news today'', ''bad idea'', ''''])"
    by auto
  from p have p': "p = 1 / 3" by (simp add: pol)
  from u have u': "u = 1 / 3" by (simp add: pol)
  from n have n': "n = 1 / 3" by (simp add: pol)
  from get_sentiment_trends_distribution[of "[]" ?silent example_polarity] none
  have zero: "get_sentiment_trends example_polarity [] ?silent = Counts 0 0 0" by simp
  from run s p' u' n' have "\<exists>p u n. get_sentiment_trends example_polarity ?posts ?comments
       = Proportions p u n \<and> p + u + n = 1 \<and> p = 1 / 3 \<and> u = 1 / 3 \<and> n = 1 / 3"
    by blast
  with ts none zero show ?thesis by (intro conjI)
qed

section \<open>Engagement aggregator: properties\<close>

lemma astype_float_Inr_iff:
  "astype_float pf cs = Inr xs \<longleftrightarrow>
     (\<forall>s. Some s \<in> set cs \<longrightarrow> pf s \<noteq> None) \<and>
     xs = map (\<lambda>c. case c of None \<Rightarrow> None | Some s \<Rightarrow> pf s) cs"
  by (auto simp: astype_float_def list_ex_iff split: option.splits)












section \<open>Topic extractor: properties\<close>

lemma check_random_state_seed: "check_random_state lib g (Some seed) = RandomState lib seed"
  by (simp add: check_random_state_def)

lemma fit_transform_Inl: "fit_transform analyze raw = Inl e \<Longrightarrow> e = ValueError"
  by (auto simp: fit_transform_def Let_def split: if_splits)

lemma fit_transform_pruned_empty:
  "pruned_vocabulary analyze raw = [] \<Longrightarrow> fit_transform analyze raw = Inl ValueError"
  by (simp add: fit_transform_def pruned_vocabulary_def Let_def)

lemma fit_transform_Inr:
  assumes "fit_transform analyze raw = Inr (names, X)"
  shows "names = sort (pruned_vocabulary analyze raw)" "names \<noteq> []" "length X = length raw"
proof -
  from assms have k: "sort (pruned_vocabulary analyze raw) \<noteq> []"
    and n: "names = sort (pruned_vocabulary analyze raw)"
    and x: "X = map (\<lambda>d. map (\<lambda>t. count_list d t) names) (map analyze raw)"
    by (auto simp: fit_transform_def pruned_vocabulary_def Let_def split: if_splits)
  show "names = sort (pruned_vocabulary analyze raw)" by (rule n)
  show "names \<noteq> []" using k n by simp
  show "length X = length raw" using x by simp
qed

lemma has_column_dropna:
  "has_column c df \<Longrightarrow> dropna (map (\<lambda>r. r c) df) \<noteq> []"
  by (induction df) (auto simp: has_column_def dropna_def)

lemma texts_eq_Nil_iff: "texts c df = [] \<longleftrightarrow> \<not> has_column c df"
  using has_column_dropna[of c df] by (auto simp: texts_def)

lemma has_column_not_empty: "has_column c df \<Longrightarrow> \<not> df_empty df"
  by (auto simp: has_column_def df_empty_def)

lemma get_topics_no_titles:
  "texts ''post_data:title'' (to_dataframe posts) = [] \<Longrightarrow> get_topics lib g k posts = Inr []"
  by (simp add: get_topics_def texts_eq_Nil_iff)

lemma get_topics_titled:
  assumes "texts ''post_data:title'' (to_dataframe posts) \<noteq> []"
  shows "get_topics lib g k posts =
     (case fit_transform (analyzer lib) (texts ''post_data:title'' (to_dataframe posts)) of
        Inl e \<Rightarrow> Inl e
      | Inr (feature_names, X) \<Rightarrow>
          if k < 1 then Inl ValueError
          else topic_lines feature_names 0 (lda_components lib (RandomState lib 42) (nat k) X))"
proof -
  let ?df = "to_dataframe posts"
  from assms have col: "has_column ''post_data:title'' ?df"
    by (simp add: texts_eq_Nil_iff)
  then have ne: "\<not> df_empty ?df" by (rule has_column_not_empty)
  from col have t: "texts ''post_data:title'' ?df = dropna (map (\<lambda>r. r ''post_data:title'') ?df)"
    by (simp add: texts_def)
  show ?thesis
  proof (cases "fit_transform (analyzer lib) (texts ''post_data:title'' ?df)")
    case (Inl e)
    then show ?thesis using col ne t by (simp add: get_topics_def Let_def)
  next
    case (Inr p)
    obtain names X where p: "p = (names, X)" by (cases p)
    from fit_transform_Inr(3)[OF Inr[unfolded p]] assms have "length X \<noteq> 0" by simp
    then show ?thesis using col ne t Inr p
      by (simp add: get_topics_def Let_def check_random_state_seed)
  qed
qed

lemma get_topics_pruned_empty:
  assumes "texts ''post_data:title'' (to_dataframe posts) \<noteq> []"
    and "pruned_vocabulary (analyzer lib) (texts ''post_data:title'' (to_dataframe posts)) = []"
  shows "get_topics lib g k posts = Inl ValueError"
  unfolding get_topics_titled[OF assms(1)] fit_transform_pruned_empty[OF assms(2)] by simp

lemma pruned_few_documents:
  assumes "length raw \<le> 2"
  shows "pruned_vocabulary analyze raw = []"
proof -
  have "\<not> (real (document_frequency (map analyze raw) t) \<le> (95 / 100) * real (length raw)
          \<and> 2 \<le> real (document_frequency (map analyze raw) t))" for t
  proof 
    assume a: "real (document_frequency (map analyze raw) t) \<le> (95 / 100) * real (length raw)
          \<and> 2 \<le> real (document_frequency (map analyze raw) t)"
    then have "2 \<le> (95 / 100) * real (length raw)" by linarith
    moreover have "real (length raw) \<le> 2" using assms by simp
    ultimately show False by linarith
  qed
  then show ?thesis by (simp add: pruned_vocabulary_def)
qed

lemma argsort_props:
  "set (argsort topic) = {..<length topic}" "distinct (argsort topic)"
  "sorted_wrt (\<lambda>a b. topic ! a \<le> topic ! b) (argsort topic)"
proof -
  show "set (argsort topic) = {..<length topic}" by (auto simp: argsort_def)
  show "distinct (argsort topic)" by (simp add: argsort_def)
  have "sorted (map (\<lambda>i. topic ! i) (argsort topic))"
    unfolding argsort_def by (rule sorted_sort_key)
  then show "sorted_wrt (\<lambda>a b. topic ! a \<le> topic ! b) (argsort topic)"
    by (simp add: sorted_map)
qed

lemma sorted_wrt_take_drop:
  assumes "sorted_wrt P xs" "a \<in> set (take n xs)" "b \<in> set (drop n xs)"
  shows "P a b"
proof -
  from assms(1) have "sorted_wrt P (take n xs @ drop n xs)" by simp
  with assms(2,3) show ?thesis unfolding sorted_wrt_append by blast
qed

lemma top_indices_props:
  "length (top_indices topic) \<le> 5"
  "length (top_indices topic) = min 5 (length topic)"
  "distinct (top_indices topic)"
  "set (top_indices topic) \<subseteq> {..<length topic}"
  "sorted_wrt (\<lambda>a b. topic ! b \<le> topic ! a) (top_indices topic)"
  "j < length topic \<Longrightarrow> j \<notin> set (top_indices topic) \<Longrightarrow> a \<in> set (top_indices topic)
     \<Longrightarrow> topic ! j \<le> topic ! a"
proof -
  let ?r = "rev (argsort topic)"
  have desc: "sorted_wrt (\<lambda>a b. topic ! b \<le> topic ! a) ?r"
    using argsort_props(3)[of topic] by (simp add: sorted_wrt_rev)
  show "length (top_indices topic) \<le> 5" by (simp add: top_indices_def)
  show "length (top_indices topic) = min 5 (length topic)"
    by (simp add: top_indices_def argsort_def min.commute)
  show "distinct (top_indices topic)"
    by (simp add: top_indices_def argsort_props(2) distinct_take)
  show "set (top_indices topic) \<subseteq> {..<length topic}"
    using set_take_subset[of 5 ?r] argsort_props(1)[of topic] by (simp add: top_indices_def)
  show "sorted_wrt (\<lambda>a b. topic ! b \<le> topic ! a) (top_indices topic)"
    unfolding top_indices_def by (rule sorted_wrt_take[OF desc])
  assume j: "j < length topic" "j \<notin> set (top_indices topic)" and a: "a \<in> set (top_indices topic)"
  from j(1) have "j \<in> set ?r" using argsort_props(1)[of topic] by simp
  then have "j \<in> set (take 5 ?r @ drop 5 ?r)" by simp
  with j(2) have "j \<in> set (drop 5 ?r)" unfolding set_append top_indices_def by blast
  with a show "topic ! j \<le> topic ! a"
    using sorted_wrt_take_drop[OF desc, of a 5 j] by (simp add: top_indices_def)
qed

lemma topic_lines_Inr:
  "topic_lines names idx comps = Inr lines \<Longrightarrow>
     length lines = length comps \<and>
     (\<forall>i < length comps.
        lines ! i = format_topic (idx + i) (map (\<lambda>j. names ! j) (top_indices (comps ! i))) \<and>
        (\<forall>j \<in> set (top_indices (comps ! i)). j < length names))"
proof (induction comps arbitrary: idx lines)
  case Nil
  then show ?case by simp
next
  case (Cons topic rest)
  from Cons.prems obtain ws ls where
    w: "top_words names topic = Inr ws" and
    r: "topic_lines names (idx + 1) rest = Inr ls" and
    l: "lines = format_topic idx ws # ls"
    by (auto split: sum.splits)
  from w have ws: "ws = map (\<lambda>j. names ! j) (top_indices topic)"
    and inb: "\<forall>j \<in> set (top_indices topic). j < length names"
    by (auto simp: top_words_def list_all_iff split: if_splits)
  from Cons.IH[OF r] have len: "length ls = length rest"
    and rest: "\<forall>i < length rest.
        ls ! i = format_topic (idx + 1 + i) (map (\<lambda>j. names ! j) (top_indices (rest ! i))) \<and>
        (\<forall>j \<in> set (top_indices (rest ! i)). j < length names)"
    by simp_all
  show ?case
  proof (intro conjI allI impI)
    show "length lines = length (topic # rest)" using l len by simp
  next
    fix i assume "i < length (topic # rest)"
    then show "lines ! i = format_topic (idx + i)
                   (map (\<lambda>j. names ! j) (top_indices ((topic # rest) ! i)))"
      using l ws rest by (cases i) simp_all
  next
    fix i assume "i < length (topic # rest)"
    then show "\<forall>j \<in> set (top_indices ((topic # rest) ! i)). j < length names"
      using inb rest by (cases i) simp_all
  qed
qed

text \<open>
  C4. With no title in the corpus (no post, or no post that carries one) \<open>get_topics\<close>
  returns the empty list. With at least one title and an empty vocabulary after the
  cut-offs it does not: the vectorizer raises ValueError before the guard on the matrix
  is reached, and \<open>get_topics\<close> raises with it. This is so for every corpus of one or two
  titles, where 95 in 100 of the documents is less than 2.
\<close>

theorem get_topics_empty_vocabulary:
  "(texts ''post_data:title'' (to_dataframe posts) = [] \<longrightarrow>
      get_topics lib g num_topics posts = Inr []) \<and>
   (texts ''post_data:title'' (to_dataframe posts) \<noteq> [] \<and>
    pruned_vocabulary (analyzer lib) (texts ''post_data:title'' (to_dataframe posts)) = [] \<longrightarrow>
      get_topics lib g num_topics posts = Inl ValueError) \<and>
   (texts ''post_data:title'' (to_dataframe posts) \<noteq> [] \<and>
    length (texts ''post_data:title'' (to_dataframe posts)) \<le> 2 \<longrightarrow>
      get_topics lib g num_topics posts = Inl ValueError)"
  using get_topics_no_titles[of posts lib g num_topics]
    get_topics_pruned_empty[of posts lib g num_topics]
    pruned_few_documents[of "texts ''post_data:title'' (to_dataframe posts)" "analyzer lib"]
  by blast

theorem get_topics_empty_vocabulary_witness:
  "texts ''post_data:title'' (to_dataframe
      [(''post_1'', [''post_data:title'' \<mapsto> ''apple banana'', ''post_data:author'' \<mapsto> ''alice''])])
     = [''apple banana''] \<and>
   pruned_vocabulary (analyzer example_sklearn) [''apple banana''] = [] \<and>
   get_topics example_sklearn 0 5
      [(''post_1'', [''post_data:title'' \<mapsto> ''apple banana'', ''post_data:author'' \<mapsto> ''alice''])]
     = Inl ValueError \<and>
   texts ''post_data:title'' (to_dataframe
      [(''post_1'', [''post_data:author'' \<mapsto> ''alice''])]) = [] \<and>
   get_topics example_sklearn 0 5 [(''post_1'', [''post_data:author'' \<mapsto> ''alice''])] = Inr []"
proof -
  let ?one = "[(''post_1'', [''post_data:title'' \<mapsto> ''apple banana'', ''post_data:author'' \<mapsto> ''alice''])]"
  let ?untitled = "[(''post_1'', [''post_data:author'' \<mapsto> ''alice''])]"
  have t: "texts ''post_data:title'' (to_dataframe ?one) = [''apple banana'']"
    by (simp add: texts_def to_dataframe_def has_column_def dropna_def)
  have v: "pruned_vocabulary (analyzer example_sklearn) [''apple banana''] = []"
    by (simp add: pruned_vocabulary_def example_sklearn_def blank_analyzer_def document_frequency_def)
  have u: "texts ''post_data:title'' (to_dataframe ?untitled) = []"
    by (simp add: texts_def to_dataframe_def has_column_def)
  from get_topics_empty_vocabulary[of ?one example_sklearn 0 5] t v
  have raises: "get_topics example_sklearn 0 5 ?one = Inl ValueError" by simp
  from get_topics_empty_vocabulary[of ?untitled example_sklearn 0 5] u
  have empty: "get_topics example_sklearn 0 5 ?untitled = Inr []" by simp
  from t v raises u empty show ?thesis by (intro conjI)
qed

text \<open>
  C7. The topic model is fitted with the generator of seed 42, whatever the state of the
  process-wide generator when the run starts: two runs on the same posts with the same
  number of topics give the same result, be it the topic lines or the error.
\<close>

theorem get_topics_deterministic:
  "get_topics lib g1 num_topics posts = get_topics lib g2 num_topics posts"
  unfolding get_topics_def check_random_state_seed by (rule refl)

theorem get_topics_deterministic_witness:
  "get_topics example_sklearn 0 2
     [(''post_1'', [''post_data:title'' \<mapsto> ''apple banana'']),
      (''post_2'', [''post_data:title'' \<mapsto> ''apple cherry'']),
      (''post_3'', [''post_data:title'' \<mapsto> ''banana cherry''])]
   = Inr [''Topic 1: cherry, banana, apple'', ''Topic 2: banana, apple, cherry''] \<and>
   get_topics example_sklearn 7 2
     [(''post_1'', [''post_data:title'' \<mapsto> ''apple banana'']),
      (''post_2'', [''post_data:title'' \<mapsto> ''apple cherry'']),
      (''post_3'', [''post_data:title'' \<mapsto> ''banana cherry''])]
   = Inr [''Topic 1: cherry, banana, apple'', ''Topic 2: banana, apple, cherry'']"
proof -
  let ?posts = "[(''post_1'', [''post_data:title'' \<mapsto> ''apple banana'']),
      (''post_2'', [''post_data:title'' \<mapsto> ''apple cherry'']),
      (''post_3'', [''post_data:title'' \<mapsto> ''banana cherry''])]"
  have run: "get_topics example_sklearn 0 2 ?posts
     = Inr [''Topic 1: cherry, banana, apple'', ''Topic 2: banana, apple, cherry'']"
    by (simp add: get_topics_def to_dataframe_def has_column_def df_empty_def dropna_def
       fit_transform_def blank_analyzer_def document_frequency_def Let_def
       example_sklearn_def check_random_state_def example_components_def column_total_def
       upt_conv_Cons top_words_def top_indices_def argsort_def format_topic_def digit_char_def)
  from get_topics_deterministic[of example_sklearn 7 2 ?posts 0] run
  have "get_topics example_sklearn 7 2 ?posts
     = Inr [''Topic 1: cherry, banana, apple'', ''Topic 2: banana, apple, cherry'']"
    by (rule trans)
  with run show ?thesis by (intro conjI)
qed

text \<open>
  C10. The library returns one row of weights per component. Then a result of
  \<open>get_topics\<close> that is not empty has exactly \<open>num_topics\<close> lines. Line \<open>i\<close>, counted
  from 0, reads \<open>Topic i+1:\<close> followed by the names of the top features of component
  \<open>i\<close>: at most five, all different, by descending weight, and no feature left out is
  heavier than a listed one. The number of documents and of terms plays no part.
\<close>

theorem get_topics_one_line_per_topic:
  assumes "one_row_per_component lib"
    and "get_topics lib g num_topics posts = Inr lines"
    and "lines \<noteq> []"
  shows "\<exists>names X.
     fit_transform (analyzer lib) (texts ''post_data:title'' (to_dataframe posts)) = Inr (names, X) \<and>
     1 \<le> num_topics \<and> length lines = nat num_topics \<and>
     (\<forall>i < nat num_topics.
        let topic = lda_components lib (RandomState lib 42) (nat num_topics) X ! i;
            top = top_indices topic
        in lines ! i = ''Topic '' @ str_nat (i + 1) @ '': '' @ join '', '' (map (\<lambda>j. names ! j) top) \<and>
           length top \<le> 5 \<and> distinct top \<and> (\<forall>j \<in> set top. j < length names) \<and>
           sorted_wrt (\<lambda>a b. topic ! b \<le> topic ! a) top \<and>
           (\<forall>j < length topic. j \<notin> set top \<longrightarrow> (\<forall>a \<in> set top. topic ! j \<le> topic ! a)))"
proof -
  let ?titles = "texts ''post_data:title'' (to_dataframe posts)"
  let ?comps = "\<lambda>X. lda_components lib (RandomState lib 42) (nat num_topics) X"
  have titled: "?titles \<noteq> []"
  proof
    assume "?titles = []"
    then have "get_topics lib g num_topics posts = Inr []" by (rule get_topics_no_titles)
    with assms(2,3) show False by simp
  qed
  note run = assms(2)[unfolded get_topics_titled[OF titled]]
  from run obtain names X where ft: "fit_transform (analyzer lib) ?titles = Inr (names, X)"
    by (cases "fit_transform (analyzer lib) ?titles") auto
  from run ft have k: "1 \<le> num_topics" and tl: "topic_lines names 0 (?comps X) = Inr lines"
    by (simp_all split: if_splits)
  from assms(1) have len: "length (?comps X) = nat num_topics"
    by (simp add: one_row_per_component_def)
  note tls = topic_lines_Inr[OF tl, unfolded len]
  have "\<forall>i < nat num_topics.
        let topic = ?comps X ! i; top = top_indices topic
        in lines ! i = ''Topic '' @ str_nat (i + 1) @ '': '' @ join '', '' (map (\<lambda>j. names ! j) top) \<and>
           length top \<le> 5 \<and> distinct top \<and> (\<forall>j \<in> set top. j < length names) \<and>
           sorted_wrt (\<lambda>a b. topic ! b \<le> topic ! a) top \<and>
           (\<forall>j < length topic. j \<notin> set top \<longrightarrow> (\<forall>a \<in> set top. topic ! j \<le> topic ! a))"
  proof (intro allI impI)
    fix i assume i: "i < nat num_topics"
    let ?topic = "?comps X ! i"
    from tls i have line: "lines ! i = format_topic (0 + i) (map (\<lambda>j. names ! j) (top_indices ?topic))"
      and inb: "\<forall>j \<in> set (top_indices ?topic). j < length names"
      by simp_all
    from line have "lines ! i = ''Topic '' @ str_nat (i + 1) @ '': '' @
                      join '', '' (map (\<lambda>j. names ! j) (top_indices ?topic))"
      by (simp add: format_topic_def)
    moreover have "\<forall>j < length ?topic. j \<notin> set (top_indices ?topic) \<longrightarrow>
                     (\<forall>a \<in> set (top_indices ?topic). ?topic ! j \<le> ?topic ! a)"
      using top_indices_props(6)[of _ ?topic] by blast
    ultimately show "let topic = ?comps X ! i; top = top_indices topic
        in lines ! i = ''Topic '' @ str_nat (i + 1) @ '': '' @ join '', '' (map (\<lambda>j. names ! j) top) \<and>
           length top \<le> 5 \<and> distinct top \<and> (\<forall>j \<in> set top. j < length names) \<and>
           sorted_wrt (\<lambda>a b. topic ! b \<le> topic ! a) top \<and>
           (\<forall>j < length topic. j \<notin> set top \<longrightarrow> (\<forall>a \<in> set top. topic ! j \<le> topic ! a))"
      unfolding Let_def
      using inb top_indices_props(1,3,5)[of ?topic] by (intro conjI)
  qed
  with ft k tls show ?thesis by blast
qed

theorem get_topics_one_line_per_topic_witness:
  "one_row_per_component example_sklearn \<and>
   get_topics example_sklearn 0 5
     [(''post_1'', [''post_data:title'' \<mapsto> ''apple banana'']),
      (''post_2'', [''post_data:title'' \<mapsto> ''apple cherry'']),
      (''post_3'', [''post_data:title'' \<mapsto> ''banana cherry''])]
   = Inr [''Topic 1: cherry, banana, apple'', ''Topic 2: banana, apple, cherry'',
          ''Topic 3: apple, cherry, banana'', ''Topic 4: cherry, banana, apple'',
          ''Topic 5: banana, apple, cherry''] \<and>
   (\<exists>names X.
      fit_transform (analyzer example_sklearn) (texts ''post_data:title'' (to_dataframe
         [(''post_1'', [''post_data:title'' \<mapsto> ''apple banana'']),
          (''post_2'', [''post_data:title'' \<mapsto> ''apple cherry'']),
          (''post_3'', [''post_data:title'' \<mapsto> ''banana cherry''])])) = Inr (names, X) \<and>
      length [''Topic 1: cherry, banana, apple'', ''Topic 2: banana, apple, cherry'',
          ''Topic 3: apple, cherry, banana'', ''Topic 4: cherry, banana, apple'',
          ''Topic 5: banana, apple, cherry''] = nat 5)"
proof -
  let ?posts = "[(''post_1'', [''post_data:title'' \<mapsto> ''apple banana'']),
      (''post_2'', [''post_data:title'' \<mapsto> ''apple cherry'']),
      (''post_3'', [''post_data:title'' \<mapsto> ''banana cherry''])]"
  let ?lines = "[''Topic 1: cherry, banana, apple'', ''Topic 2: banana, apple, cherry'',
          ''Topic 3: apple, cherry, banana'', ''Topic 4: cherry, banana, apple'',
          ''Topic 5: banana, apple, cherry'']"
  have shape: "one_row_per_component example_sklearn"
    by (simp add: one_row_per_component_def example_sklearn_def example_components_def)
  have run: "get_topics example_sklearn 0 5 ?posts = Inr ?lines"
    by (simp add: get_topics_def to_dataframe_def has_column_def df_empty_def dropna_def
       fit_transform_def blank_analyzer_def document_frequency_def Let_def
       example_sklearn_def check_random_state_def example_components_def column_total_def
       upt_conv_Cons top_words_def top_indices_def argsort_def format_topic_def digit_char_def)
  have ne: "?lines \<noteq> []" by simp
  from get_topics_one_line_per_topic[OF shape run ne]
  obtain names X where
    "fit_transform (analyzer example_sklearn) (texts ''post_data:title'' (to_dataframe ?posts)) = Inr (names, X)"
    "length ?lines = nat 5"
    by blast
  then have "\<exists>names X.
      fit_transform (analyzer example_sklearn) (texts ''post_data:title'' (to_dataframe ?posts)) = Inr (names, X) \<and>
      length ?lines = nat 5"
    by blast
  with shape run show ?thesis by (intro conjI)
qed

section \<open>Influence scorer and reply graph: properties\<close>

lemma fadd_assoc: "fadd (fadd a b) c = fadd a (fadd b c)"
  by (simp add: fadd_def split: option.splits)

lemma fadd_zero: "fadd a (Some 0) = a" "fadd (Some 0) a = a"
  by (simp_all add: fadd_def split: option.splits)

lemma fsum_Nil: "fsum [] = Some 0"
  by (simp add: fsum_def)

lemma fsum_Cons: "fsum (x # xs) = fadd x (fsum xs)"
  by (simp add: fsum_def)

lemma fsum_fmul: "fsum (map (\<lambda>x. fmul (f x) h) xs) = fmul (fsum (map f xs)) h" if "h \<noteq> None"
  using that
  by (induction xs) (auto simp: fsum_Nil fsum_Cons fmul_def fadd_def algebra_simps split: option.splits)


lemma dict_get_add: "dict_get (dict_add k x d) k' = (if k' = k then fadd (dict_get d k) x else dict_get d k')"
  by (simp add: dict_get_def dict_add_def update_conv')

lemma keys_dict_add: "fst ` set (dict_add k x d) = insert k (fst ` set d)"
  by (simp add: dict_add_def dom_update)

lemma distinct_dict_add: "distinct (map fst d) \<Longrightarrow> distinct (map fst (dict_add k x d))"
  by (simp add: dict_add_def distinct_update)

lemma dict_get_member:
  "distinct (map fst d) \<Longrightarrow> (k, v) \<in> set d \<Longrightarrow> dict_get d k = v"
  by (simp add: dict_get_def)

lemma fold_err_accumulate:
  assumes step: "\<And>r s s'. f r s = Inr s' \<Longrightarrow>
            s' = (if truthy (a r) then dict_add (a r) (v r) s else s)"
    and run: "fold_err f rows d = Inr d'"
  shows "dict_get d' k =
           fadd (dict_get d k) (if truthy k then fsum (map v (filter (\<lambda>r. a r = k) rows)) else Some 0)"
    and "fst ` set d' = fst ` set d \<union> {k. truthy k \<and> (\<exists>r \<in> set rows. a r = k)}"
    and "distinct (map fst d) \<Longrightarrow> distinct (map fst d')"
  using run
proof (induction rows arbitrary: d)
  case Nil
  {
    case 1 then show ?case by (simp add: fsum_Nil fadd_zero)
  next
    case 2 then show ?case by simp
  next
    case 3 then show ?case by simp
  }
next
  case (Cons r rows)
  {
    case 1
    then obtain s where s: "f r d = Inr s" and rest: "fold_err f rows s = Inr d'"
      by (auto split: sum.splits)
    from step[OF s] Cons.IH(1)[OF rest] show ?case
      by (auto simp: dict_get_add fsum_Cons fadd_assoc)
  next
    case 2
    then obtain s where s: "f r d = Inr s" and rest: "fold_err f rows s = Inr d'"
      by (auto split: sum.splits)
    from step[OF s] Cons.IH(2)[OF rest] show ?case
      by (auto simp: keys_dict_add)
  next
    case 3
    from 3(2) obtain s where s: "f r d = Inr s" and rest: "fold_err f rows s = Inr d'"
      by (auto split: sum.splits)
    from step[OF s] 3(1) have "distinct (map fst s)" by (simp add: distinct_dict_add)
    from Cons.IH(3)[OF this rest] show ?case .
  }
qed

lemma float_cell_Inr:
  "float_cell pf c = Inr x \<longleftrightarrow> (c = None \<and> x = None) \<or> (\<exists>s y. c = Some s \<and> pf s = Some y \<and> x = Some y)"
  by (auto simp: float_cell_def split: option.splits)

lemma post_step_Inr:
  assumes "post_step pf df r d = Inr d'"
  shows "d' = (if truthy (r ''post_data:author'') then dict_add (r ''post_data:author'') (score_of pf r) d else d)"
    and "\<forall>s. r ''metrics:score'' = Some s \<longrightarrow> pf s \<noteq> None"
proof -
  from assms obtain x where x: "float_cell pf (r ''metrics:score'') = Inr x"
    and d': "d' = (if truthy (r ''post_data:author'') then dict_add (r ''post_data:author'') x d else d)"
    by (auto simp: post_step_def getitem_def split: if_splits sum.splits)
  from x have "score_of pf r = x" by (auto simp: float_cell_Inr score_of_def)
  with d' show "d' = (if truthy (r ''post_data:author'') then dict_add (r ''post_data:author'') (score_of pf r) d else d)"
    by simp
  from x show "\<forall>s. r ''metrics:score'' = Some s \<longrightarrow> pf s \<noteq> None" by (auto simp: float_cell_Inr)
qed

lemma comment_step_Inr:
  assumes "comment_step pf df r d = Inr d'"
  shows "d' = (if truthy (r ''comment_data:author'')
               then dict_add (r ''comment_data:author'') (fmul (score_of pf r) (Some (1 / 2))) d else d)"
    and "\<forall>s. r ''metrics:score'' = Some s \<longrightarrow> pf s \<noteq> None"
proof -
  from assms obtain x where x: "float_cell pf (r ''metrics:score'') = Inr x"
    and d': "d' = (if truthy (r ''comment_data:author'')
                   then dict_add (r ''comment_data:author'') (fmul x (Some (1 / 2))) d else d)"
    by (auto simp: comment_step_def getitem_def split: if_splits sum.splits)
  from x have "score_of pf r = x" by (auto simp: float_cell_Inr score_of_def)
  with d' show "d' = (if truthy (r ''comment_data:author'')
               then dict_add (r ''comment_data:author'') (fmul (score_of pf r) (Some (1 / 2))) d else d)"
    by simp
  from x show "\<forall>s. r ''metrics:score'' = Some s \<longrightarrow> pf s \<noteq> None" by (auto simp: float_cell_Inr)
qed

lemma fold_err_all:
  assumes "\<And>r s s'. f r s = Inr s' \<Longrightarrow> P r"
    and "fold_err f rows d = Inr d'"
  shows "\<forall>r \<in> set rows. P r"
  using assms(2)
proof (induction rows arbitrary: d)
  case Nil
  then show ?case by simp
next
  case (Cons r rows)
  then obtain s where s: "f r d = Inr s" and rest: "fold_err f rows s = Inr d'"
    by (auto split: sum.splits)
  from assms(1)[OF s] Cons.IH[OF rest] show ?case by simp
qed

lemma foldl_centrality:
  assumes "distinct vs"
  shows "dict_get (foldl (\<lambda>d v. dict_add v (c v) d) d vs) k =
           fadd (dict_get d k) (if k \<in> set vs then c k else Some 0)"
    and "fst ` set (foldl (\<lambda>d v. dict_add v (c v) d) d vs) = fst ` set d \<union> set vs"
    and "distinct (map fst d) \<Longrightarrow> distinct (map fst (foldl (\<lambda>d v. dict_add v (c v) d) d vs))"
  using assms
proof (induction vs arbitrary: d)
  case Nil
  {
    case 1 then show ?case by (simp add: fadd_zero)
  next
    case 2 then show ?case by simp
  next
    case 3 then show ?case by simp
  }
next
  case (Cons v vs)
  {
    case 1
    then have dv: "distinct vs" "v \<notin> set vs" by simp_all
    from Cons.IH(1)[OF dv(1), of "dict_add v (c v) d"] dv(2) show ?case
      by (auto simp: dict_get_add fadd_zero)
  next
    case 2
    then have dv: "distinct vs" by simp
    from Cons.IH(2)[OF dv, of "dict_add v (c v) d"] show ?case
      by (auto simp: keys_dict_add)
  next
    case 3
    then have dv: "distinct vs" by simp
    from 3(1) have "distinct (map fst (dict_add v (c v) d))" by (rule distinct_dict_add)
    from Cons.IH(3)[OF this dv] show ?case by simp
  }
qed

lemma find_filter_case:
  "find P xs = (case filter P xs of [] \<Rightarrow> None | x # _ \<Rightarrow> Some x)"
  by (induction xs) auto

lemma nodes_add_node: "set (nodes (add_node v G)) = insert v (set (nodes G))"
  by (auto simp: add_node_def)

lemma distinct_add_node: "distinct (nodes G) \<Longrightarrow> distinct (nodes (add_node v G))"
  by (auto simp: add_node_def)

lemma edges_add_node: "edges (add_node v G) = edges G"
  by (simp add: add_node_def)

lemma add_edge_props:
  "set (nodes (add_edge u v G)) = insert u (insert v (set (nodes G)))"
  "set (edges (add_edge u v G)) = insert (u, v) (set (edges G))"
  "distinct (nodes G) \<Longrightarrow> distinct (nodes (add_edge u v G))"
  "distinct (edges G) \<Longrightarrow> distinct (edges (add_edge u v G))"
  by (auto simp: add_edge_def Let_def nodes_add_node distinct_add_node edges_add_node)

lemma edge_step_Inr:
  assumes "edge_step df r G = Inr G'"
  shows "G' = (case reply_edge df r of None \<Rightarrow> G | Some (u, v) \<Rightarrow> add_edge u v G)"
proof (cases "truthy (r ''comment_data:author'') \<and> truthy (r ''comment_data:parent_id'')")
  case False
  with assms have "G' = G"
    by (auto simp: edge_step_def getitem_def split: if_splits)
  moreover from False have "reply_edge df r = None"
    by (auto simp: reply_edge_def truthy_def split: option.splits)
  ultimately show ?thesis by simp
next
  case True
  with assms obtain pid where pid: "r ''comment_data:parent_id'' = Some pid"
    by (cases "r ''comment_data:parent_id''") (auto simp: edge_step_def getitem_def split: if_splits)
  show ?thesis
  proof (cases "take 3 pid = ''t1_''")
    case False
    with assms True pid have "G' = G"
      by (auto simp: edge_step_def getitem_def split: if_splits)
    moreover from False pid have "reply_edge df r = None"
      by (simp add: reply_edge_def)
    ultimately show ?thesis by simp
  next
    case t1: True
    from assms True pid t1 have
      "G' = (case filter (\<lambda>p. p ''comment_data:id'' = Some (drop 3 pid)) df of
               [] \<Rightarrow> G
             | parent # _ \<Rightarrow> add_edge (r ''comment_data:author'') (parent ''comment_data:author'') G)"
      by (auto simp: edge_step_def getitem_def split: if_splits list.splits)
    moreover from True pid t1 have
      "reply_edge df r = (case filter (\<lambda>p. p ''comment_data:id'' = Some (drop 3 pid)) df of
               [] \<Rightarrow> None
             | parent # _ \<Rightarrow> Some (r ''comment_data:author'', parent ''comment_data:author''))"
      by (simp add: reply_edge_def parent_of_def find_filter_case split: list.splits)
    ultimately show ?thesis by (simp split: list.splits)
  qed
qed

lemma fold_edges:
  assumes "fold_err (edge_step df) rows G = Inr G'"
  shows "set (edges G') = set (edges G) \<union> {e. \<exists>r \<in> set rows. reply_edge df r = Some e}"
    and "set (nodes G') = set (nodes G) \<union> fst ` {e. \<exists>r \<in> set rows. reply_edge df r = Some e}
                            \<union> snd ` {e. \<exists>r \<in> set rows. reply_edge df r = Some e}"
    and "distinct (nodes G) \<Longrightarrow> distinct (nodes G')"
  using assms
proof (induction rows arbitrary: G)
  case Nil
  {
    case 1 then show ?case by simp
  next
    case 2 then show ?case by simp
  next
    case 3 then show ?case by simp
  }
next
  case (Cons r rows)
  {
    case 1
    then obtain H where s: "edge_step df r G = Inr H" and rest: "fold_err (edge_step df) rows H = Inr G'"
      by (auto split: sum.splits)
    from edge_step_Inr[OF s] Cons.IH(1)[OF rest] show ?case
      by (cases "reply_edge df r") (auto simp: add_edge_props)
  next
    case 2
    then obtain H where s: "edge_step df r G = Inr H" and rest: "fold_err (edge_step df) rows H = Inr G'"
      by (auto split: sum.splits)
    from edge_step_Inr[OF s] Cons.IH(2)[OF rest] show ?case
      by (cases "reply_edge df r") (force simp: add_edge_props)+
  next
    case 3
    from 3(2) obtain H where s: "edge_step df r G = Inr H" and rest: "fold_err (edge_step df) rows H = Inr G'"
      by (auto split: sum.splits)
    from edge_step_Inr[OF s] 3(1) have "distinct (nodes H)"
      by (cases "reply_edge df r") (auto simp: add_edge_props)
    from Cons.IH(3)[OF this rest] show ?case .
  }
qed

lemma reply_graph_Inr:
  assumes "reply_graph df = Inr G"
  shows "set (edges G) = {e. \<exists>r \<in> set df. reply_edge df r = Some e}"
    and "set (nodes G) = fst ` set (edges G) \<union> snd ` set (edges G)"
    and "distinct (nodes G)"
proof -
  have run: "fold_err (edge_step df) df empty_graph = Inr G"
    using assms by (cases "df = []") (auto simp: reply_graph_def df_empty_def)
  from fold_edges(1)[OF run] show e: "set (edges G) = {e. \<exists>r \<in> set df. reply_edge df r = Some e}"
    by (simp add: empty_graph_def)
  from fold_edges(2)[OF run] show "set (nodes G) = fst ` set (edges G) \<union> snd ` set (edges G)"
    unfolding e by (simp add: empty_graph_def)
  from fold_edges(3)[OF run] show "distinct (nodes G)" by (simp add: empty_graph_def)
qed

lemma fold_err_total:
  assumes "\<And>r s. r \<in> set rows \<Longrightarrow> \<exists>s'. f r s = Inr s'"
  shows "\<exists>s'. fold_err f rows s = Inr s'"
  using assms
proof (induction rows arbitrary: s)
  case Nil
  then show ?case by simp
next
  case (Cons r rows)
  from Cons.prems[of r s] obtain s1 where s1: "f r s = Inr s1" by auto
  from Cons.IH[of s1] Cons.prems obtain s' where "fold_err f rows s1 = Inr s'" by auto
  with s1 show ?case by simp
qed

lemma carries_has_columns:
  assumes "carries_reply_fields df" "r \<in> set df"
  shows "has_column ''comment_data:author'' df" "has_column ''comment_data:parent_id'' df"
    "has_column ''comment_data:id'' df"
    "\<exists>a. r ''comment_data:author'' = Some a" "\<exists>pid. r ''comment_data:parent_id'' = Some pid"
  using assms by (auto simp: carries_reply_fields_def list_all_iff has_column_def list_ex_iff)

lemma edge_step_total:
  assumes "carries_reply_fields df" "r \<in> set df"
  shows "\<exists>G'. edge_step df r G = Inr G'"
proof -
  note c = carries_has_columns[OF assms]
  from c(5) obtain pid where pid: "r ''comment_data:parent_id'' = Some pid" by blast
  show ?thesis
    using c(1,2,3) pid
    by (simp add: edge_step_def getitem_def split: list.splits)
qed

lemma reply_graph_total:
  assumes "carries_reply_fields df"
  shows "\<exists>G. reply_graph df = Inr G"
proof (cases "df_empty df")
  case True
  then show ?thesis by (simp add: reply_graph_def)
next
  case False
  from fold_err_total[of df "edge_step df" empty_graph] edge_step_total[OF assms]
  obtain G where "fold_err (edge_step df) df empty_graph = Inr G" by blast
  with False show ?thesis by (simp add: reply_graph_def)
qed

lemma t1_prefix: "take 3 pid = ''t1_'' \<longleftrightarrow> (\<exists>rest. pid = ''t1_'' @ rest)"
proof
  assume "take 3 pid = ''t1_''"
  then have "pid = ''t1_'' @ drop 3 pid" by (metis append_take_drop_id)
  then show "\<exists>rest. pid = ''t1_'' @ rest" ..
next
  assume "\<exists>rest. pid = ''t1_'' @ rest"
  then show "take 3 pid = ''t1_''" by auto
qed

lemma reply_edge_Some_iff:
  assumes "r ''comment_data:author'' = Some a"
  shows "reply_edge df r = Some e \<longleftrightarrow>
     (\<exists>pid p. a \<noteq> [] \<and> r ''comment_data:parent_id'' = Some (''t1_'' @ pid) \<and>
        parent_of df pid = Some p \<and> e = (Some a, p ''comment_data:author''))"
proof
  assume e: "reply_edge df r = Some e"
  then obtain full where f: "r ''comment_data:parent_id'' = Some full"
    by (cases "r ''comment_data:parent_id''") (simp_all add: reply_edge_def)
  from e f assms have a: "a \<noteq> []" and t: "take 3 full = ''t1_''"
    by (auto simp: reply_edge_def truthy_def split: if_splits)
  from t have full: "full = ''t1_'' @ drop 3 full" by (metis append_take_drop_id)
  from e f assms a t obtain p where p: "parent_of df (drop 3 full) = Some p"
    and e': "e = (Some a, p ''comment_data:author'')"
    by (auto simp: reply_edge_def truthy_def split: option.splits)
  from a f full p e' show "\<exists>pid p. a \<noteq> [] \<and> r ''comment_data:parent_id'' = Some (''t1_'' @ pid) \<and>
        parent_of df pid = Some p \<and> e = (Some a, p ''comment_data:author'')"
    by metis
next
  assume "\<exists>pid p. a \<noteq> [] \<and> r ''comment_data:parent_id'' = Some (''t1_'' @ pid) \<and>
        parent_of df pid = Some p \<and> e = (Some a, p ''comment_data:author'')"
  then show "reply_edge df r = Some e"
    using assms by (auto simp: reply_edge_def truthy_def)
qed

lemma edge_step_skips:
  assumes "carries_reply_fields df" "r \<in> set df"
    and "reply_edge df r = None"
  shows "edge_step df r H = Inr H"
proof -
  from edge_step_total[OF assms(1,2)] obtain H' where s: "edge_step df r H = Inr H'" by blast
  from edge_step_Inr[OF s] assms(3) show ?thesis using s by simp
qed

lemma fold_err_guard:
  "(if \<not> df_empty df then fold_err f df d else Inr d) = fold_err f df d"
  by (cases df) (simp_all add: df_empty_def)

lemma influence_table_Inr:
  assumes "influence_table pf bc pdf cdf = Inr d"
  shows "\<exists>G. reply_graph cdf = Inr G \<and> distinct (map fst d) \<and>
     (\<forall>k. dict_get d k =
        fadd (if truthy k then fadd (score_sum pf ''post_data:author'' pdf k)
                                 (fmul (score_sum pf ''comment_data:author'' cdf k) (Some (1 / 2)))
              else Some 0)
             (if k \<in> set (nodes G) then Some (bc G k * 100) else Some 0)) \<and>
     fst ` set d = {k. truthy k \<and> (\<exists>r \<in> set pdf. r ''post_data:author'' = k)}
                 \<union> {k. truthy k \<and> (\<exists>r \<in> set cdf. r ''comment_data:author'' = k)}
                 \<union> set (nodes G) \<and>
     (\<forall>r \<in> set pdf. \<forall>s. r ''metrics:score'' = Some s \<longrightarrow> pf s \<noteq> None) \<and>
     (\<forall>r \<in> set cdf. \<forall>s. r ''metrics:score'' = Some s \<longrightarrow> pf s \<noteq> None)"
proof -
  from assms obtain d1 d2 G where
    p: "fold_err (post_step pf pdf) pdf [] = Inr d1" and
    c: "fold_err (comment_step pf cdf) cdf d1 = Inr d2" and
    g: "reply_graph cdf = Inr G" and
    d: "d = (if nodes G \<noteq> [] then foldl (\<lambda>influence v. dict_add v (fmul (Some (bc G v)) (Some 100)) influence) d2 (nodes G) else d2)"
    unfolding influence_table_def fold_err_guard by (auto split: sum.splits)
  have d': "d = foldl (\<lambda>influence v. dict_add v (fmul (Some (bc G v)) (Some 100)) influence) d2 (nodes G)"
    using d by (cases "nodes G") simp_all
  note dn = reply_graph_Inr(3)[OF g]
  note P = fold_err_accumulate[where f = "post_step pf pdf" and a = "\<lambda>r. r ''post_data:author''"
      and v = "score_of pf", OF post_step_Inr(1) p]
  note C = fold_err_accumulate[where f = "comment_step pf cdf" and a = "\<lambda>r. r ''comment_data:author''"
      and v = "\<lambda>r. fmul (score_of pf r) (Some (1 / 2))", OF comment_step_Inr(1) c]
  note B = foldl_centrality[OF dn, where c = "\<lambda>v. fmul (Some (bc G v)) (Some 100)" and d = d2, folded d']
  have dist: "distinct (map fst d)"
    using P(3) C(3) B(3) by simp
  have val: "dict_get d k =
        fadd (if truthy k then fadd (score_sum pf ''post_data:author'' pdf k)
                                 (fmul (score_sum pf ''comment_data:author'' cdf k) (Some (1 / 2)))
              else Some 0)
             (if k \<in> set (nodes G) then Some (bc G k * 100) else Some 0)" for k
  proof -
    have "dict_get d k = fadd (dict_get d2 k) (if k \<in> set (nodes G) then fmul (Some (bc G k)) (Some 100) else Some 0)"
      by (rule B(1))
    moreover have "dict_get d2 k = fadd (dict_get d1 k) (if truthy k
        then fsum (map (\<lambda>r. fmul (score_of pf r) (Some (1 / 2))) (filter (\<lambda>r. r ''comment_data:author'' = k) cdf))
        else Some 0)"
      by (rule C(1))
    moreover have "dict_get d1 k = fadd (dict_get [] k) (if truthy k
        then fsum (map (score_of pf) (filter (\<lambda>r. r ''post_data:author'' = k) pdf)) else Some 0)"
      by (rule P(1))
    moreover have "dict_get [] k = Some 0" by (simp add: dict_get_def)
    moreover have "fmul (Some (bc G k)) (Some 100) = Some (bc G k * 100)" by (simp add: fmul_def)
    ultimately show ?thesis
      by (simp add: score_sum_def fsum_fmul fadd_zero)
  qed
  have keys: "fst ` set d = {k. truthy k \<and> (\<exists>r \<in> set pdf. r ''post_data:author'' = k)}
                 \<union> {k. truthy k \<and> (\<exists>r \<in> set cdf. r ''comment_data:author'' = k)}
                 \<union> set (nodes G)"
  proof -
    have "fst ` set d = fst ` set d2 \<union> set (nodes G)" by (rule B(2))
    moreover have "fst ` set d2 = fst ` set d1
        \<union> {k. truthy k \<and> (\<exists>r \<in> set cdf. r ''comment_data:author'' = k)}" by (rule C(2))
    moreover have "fst ` set d1 = fst ` set ([] :: influence)
        \<union> {k. truthy k \<and> (\<exists>r \<in> set pdf. r ''post_data:author'' = k)}" by (rule P(2))
    ultimately show ?thesis by simp
  qed
  have sp: "\<forall>r \<in> set pdf. \<forall>s. r ''metrics:score'' = Some s \<longrightarrow> pf s \<noteq> None"
    by (rule fold_err_all[where f = "post_step pf pdf", OF post_step_Inr(2) p])
  have sc: "\<forall>r \<in> set cdf. \<forall>s. r ''metrics:score'' = Some s \<longrightarrow> pf s \<noteq> None"
    by (rule fold_err_all[where f = "comment_step pf cdf", OF comment_step_Inr(2) c])
  from g dist val keys sp sc show ?thesis by blast
qed

lemma get_user_influence_Inr:
  assumes "get_user_influence nan_sorted pf bc limit posts comments = Inr out"
  shows "\<exists>d. influence_table pf bc (to_dataframe posts) (to_dataframe comments) = Inr d \<and>
             out = py_head limit (sorted_by_score nan_sorted d)"
proof (cases "df_empty (to_dataframe posts) \<and> df_empty (to_dataframe comments)")
  case True
  then have "influence_table pf bc (to_dataframe posts) (to_dataframe comments) = Inr []"
    by (simp add: influence_table_def reply_graph_def empty_graph_def)
  moreover from True assms have "out = []" by (simp add: get_user_influence_def)
  ultimately show ?thesis by (simp add: py_head_def sorted_by_score_def)
next
  case False
  with assms show ?thesis
    by (auto simp: get_user_influence_def Let_def split: sum.splits)
qed

lemma set_sorted_by_score:
  assumes "rearranges nan_sorted"
  shows "mset (sorted_by_score nan_sorted d) = mset d"
  using assms by (simp add: sorted_by_score_def rearranges_def)

lemma fmul_one: "fmul a (Some 1) = a"
  by (simp add: fmul_def split: option.splits)





lemma fmul_Some: "fmul (Some x) (Some y) = Some (x * y)"
  by (simp add: fmul_def)

lemma mset_take_drop: "mset (take n xs) + mset (drop n xs) = mset xs"
  using mset_append[of "take n xs" "drop n xs"] by simp

lemma mset_first_run: "first_run xs = (run, rest) \<Longrightarrow> mset run + mset rest = mset xs"
proof (cases xs)
  case Nil
  assume "first_run xs = (run, rest)"
  with Nil show ?thesis by (simp add: first_run_def)
next
  case (Cons x xs')
  assume a: "first_run xs = (run, rest)"
  show ?thesis
  proof (cases xs')
    case Nil
    with a Cons show ?thesis by (simp add: first_run_def)
  next
    case (Cons y ys)
    show ?thesis
    proof (cases "flt (snd y) (snd x)")
      case True
      with a \<open>xs = x # xs'\<close> Cons
      have "run = rev (take (2 + descending_run (snd y) ys) xs)"
        "rest = drop (2 + descending_run (snd y) ys) xs"
        by (simp_all add: first_run_def Let_def)
      then show ?thesis using mset_take_drop[of "2 + descending_run (snd y) ys" xs] by simp
    next
      case False
      with a \<open>xs = x # xs'\<close> Cons
      have "run = take (2 + ascending_run (snd y) ys) xs"
        "rest = drop (2 + ascending_run (snd y) ys) xs"
        by (simp_all add: first_run_def Let_def)
      then show ?thesis using mset_take_drop[of "2 + ascending_run (snd y) ys" xs] by simp
    qed
  qed
qed

lemma mset_binary_insert: "mset (binary_insert part x) = add_mset x (mset part)"
  using mset_take_drop[of "binary_search (snd x) part 0 (length part)" part]
  by (simp add: binary_insert_def Let_def)

lemma mset_foldl_binary_insert: "mset (foldl binary_insert run rest) = mset run + mset rest"
  by (induction rest arbitrary: run) (simp_all add: mset_binary_insert)

lemma rearranges_short_list_sorted: "rearranges short_list_sorted"
proof -
  have "mset (short_list_sorted items) = mset items" for items
  proof -
    obtain run rest where r: "first_run (rev items) = (run, rest)" by (cases "first_run (rev items)")
    from mset_first_run[OF r] have "mset run + mset rest = mset items" by simp
    with r show ?thesis by (simp add: short_list_sorted_def mset_foldl_binary_insert)
  qed
  then show ?thesis by (simp add: rearranges_def)
qed

text \<open>On corpora as the storage layer writes them, with scores that are numbers, the
  scorer returns: the results the theorems below speak about exist.\<close>

lemma carries_scores_row:
  assumes "carries_scores pf c df" "r \<in> set df"
  shows "has_column c df" "has_column ''metrics:score'' df"
    "\<exists>x. float_cell pf (r ''metrics:score'') = Inr x"
proof -
  from assms have a: "r c \<noteq> None" and s: "\<exists>s x. r ''metrics:score'' = Some s \<and> pf s = Some x"
    by (auto simp: carries_scores_def list_all_iff split: option.splits)
  from a assms(2) show "has_column c df" by (auto simp: has_column_def list_ex_iff)
  from s assms(2) show "has_column ''metrics:score'' df" by (auto simp: has_column_def list_ex_iff)
  from s show "\<exists>x. float_cell pf (r ''metrics:score'') = Inr x" by (auto simp: float_cell_def)
qed

lemma post_step_total:
  assumes "carries_scores pf ''post_data:author'' df" "r \<in> set df"
  shows "\<exists>d'. post_step pf df r d = Inr d'"
proof -
  note c = carries_scores_row[OF assms]
  from c(3) obtain x where "float_cell pf (r ''metrics:score'') = Inr x" ..
  with c(1,2) show ?thesis by (simp add: post_step_def getitem_def)
qed

lemma comment_step_total:
  assumes "carries_scores pf ''comment_data:author'' df" "r \<in> set df"
  shows "\<exists>d'. comment_step pf df r d = Inr d'"
proof -
  note c = carries_scores_row[OF assms]
  from c(3) obtain x where "float_cell pf (r ''metrics:score'') = Inr x" ..
  with c(1,2) show ?thesis by (simp add: comment_step_def getitem_def)
qed

lemma get_user_influence_returns:
  assumes "carries_scores pyfloat ''post_data:author'' (to_dataframe posts)"
    and "carries_scores pyfloat ''comment_data:author'' (to_dataframe comments)"
    and "carries_reply_fields (to_dataframe comments)"
  shows "\<exists>out. get_user_influence nan_sorted pyfloat centrality limit posts comments = Inr out"
proof -
  let ?pdf = "to_dataframe posts" and ?cdf = "to_dataframe comments"
  from fold_err_total[of ?pdf "post_step pyfloat ?pdf" "[]"] post_step_total[OF assms(1)]
  obtain d1 where d1: "fold_err (post_step pyfloat ?pdf) ?pdf [] = Inr d1" by blast
  from fold_err_total[of ?cdf "comment_step pyfloat ?cdf" d1] comment_step_total[OF assms(2)]
  obtain d2 where d2: "fold_err (comment_step pyfloat ?cdf) ?cdf d1 = Inr d2" by blast
  from reply_graph_total[OF assms(3)] obtain G where g: "reply_graph ?cdf = Inr G" ..
  from d1 d2 g have "\<exists>d. influence_table pyfloat centrality ?pdf ?cdf = Inr d"
    unfolding influence_table_def fold_err_guard by simp
  then show ?thesis
    by (auto simp: get_user_influence_def Let_def)
qed

text \<open>Unfolding the model on the example corpora.\<close>

lemma fadd_simps:
  "fadd (Some x) (Some y) = Some (x + y)" "fadd None b = None" "fadd a None = None"
  by (simp_all add: fadd_def split: option.splits)

lemma fmul_simps:
  "fmul (Some x) (Some y) = Some (x * y)" "fmul None b = None" "fmul a None = None"
  by (simp_all add: fmul_def split: option.splits)

lemmas influence_eval = get_user_influence_def influence_table_def to_dataframe_def df_empty_def
  post_step_def comment_step_def getitem_def has_column_def float_cell_def decimal_float_def
  digit_value_def truthy_def dict_add_def dict_get_def fadd_simps fmul_simps reply_graph_def
  edge_step_def add_edge_def add_node_def empty_graph_def py_head_def sorted_by_score_def Let_def

lemmas centrality_eval = betweenness_centrality_def shortest_paths_def shortest_paths_through_def
  distance_def successors_def upt_conv_Cons eval_nat_numeral


lemma thread_graph:
  "reply_graph (to_dataframe thread_comments) =
     Inr \<lparr>nodes = [Some ''alice'', Some ''bob'', Some ''carol''],
          edges = [(Some ''alice'', Some ''bob''), (Some ''carol'', Some ''alice'')]\<rparr>"
  by (simp add: thread_comments_def influence_eval)

text \<open>
  C2, for comments as \<open>store_comment\<close> writes them, where every record carries author,
  parent id and id, a missing one being the empty string. The reply graph is built without
  an error. Its edges are exactly the pairs author(child), author(parent) of the records
  whose author is not empty, whose parent id has the comment prefix \<open>t1_\<close>, and whose
  parent, the first record with the id that follows the prefix, is in the corpus. Its
  nodes are the end points of its edges. A record whose parent id has another prefix (a
  post), whose author is empty, or whose parent is not in the corpus leaves the graph as
  it is.
\<close>

theorem reply_graph_edges:
  assumes "carries_reply_fields comments_df"
  shows "\<exists>G. reply_graph comments_df = Inr G \<and>
     set (edges G) =
       {(Some a, p ''comment_data:author'') | r a pid p.
          r \<in> set comments_df \<and> r ''comment_data:author'' = Some a \<and> a \<noteq> [] \<and>
          r ''comment_data:parent_id'' = Some (''t1_'' @ pid) \<and>
          parent_of comments_df pid = Some p} \<and>
     set (nodes G) = fst ` set (edges G) \<union> snd ` set (edges G) \<and>
     (\<forall>r \<in> set comments_df. \<forall>pid H.
        r ''comment_data:parent_id'' = Some pid \<and>
        (take 3 pid \<noteq> ''t1_'' \<or> r ''comment_data:author'' = Some [] \<or>
         parent_of comments_df (drop 3 pid) = None)
        \<longrightarrow> edge_step comments_df r H = Inr H)"
proof -
  from reply_graph_total[OF assms] obtain G where g: "reply_graph comments_df = Inr G" ..
  have "set (edges G) = {e. \<exists>r \<in> set comments_df. reply_edge comments_df r = Some e}"
    by (rule reply_graph_Inr(1)[OF g])
  also have "\<dots> = {(Some a, p ''comment_data:author'') | r a pid p.
          r \<in> set comments_df \<and> r ''comment_data:author'' = Some a \<and> a \<noteq> [] \<and>
          r ''comment_data:parent_id'' = Some (''t1_'' @ pid) \<and>
          parent_of comments_df pid = Some p}" (is "?L = ?R")
  proof (intro set_eqI iffI)
    fix e assume "e \<in> ?L"
    then obtain r where r: "r \<in> set comments_df" "reply_edge comments_df r = Some e" by blast
    from carries_has_columns(4)[OF assms r(1)] obtain a where a: "r ''comment_data:author'' = Some a" ..
    from r(2) have "\<exists>pid p. a \<noteq> [] \<and> r ''comment_data:parent_id'' = Some (''t1_'' @ pid) \<and>
        parent_of comments_df pid = Some p \<and> e = (Some a, p ''comment_data:author'')"
      by (simp only: reply_edge_Some_iff[where r = r and a = a and df = comments_df and e = e, OF a])
    with r(1) a show "e \<in> ?R" by blast
  next
    fix e assume "e \<in> ?R"
    then obtain r a pid p where r: "r \<in> set comments_df" and a: "r ''comment_data:author'' = Some a"
      and rest: "a \<noteq> []" "r ''comment_data:parent_id'' = Some (''t1_'' @ pid)"
        "parent_of comments_df pid = Some p" "e = (Some a, p ''comment_data:author'')"
      by blast
    from rest have "reply_edge comments_df r = Some e"
      unfolding reply_edge_Some_iff[where r = r and a = a and df = comments_df and e = e, OF a] by blast
    with r show "e \<in> ?L" by blast
  qed
  finally have edges: "set (edges G) = ?R" .
  have skip: "\<forall>r \<in> set comments_df. \<forall>pid H.
        r ''comment_data:parent_id'' = Some pid \<and>
        (take 3 pid \<noteq> ''t1_'' \<or> r ''comment_data:author'' = Some [] \<or>
         parent_of comments_df (drop 3 pid) = None)
        \<longrightarrow> edge_step comments_df r H = Inr H"
  proof (intro ballI allI impI)
    fix r pid H
    assume r: "r \<in> set comments_df"
      and c: "r ''comment_data:parent_id'' = Some pid \<and>
        (take 3 pid \<noteq> ''t1_'' \<or> r ''comment_data:author'' = Some [] \<or>
         parent_of comments_df (drop 3 pid) = None)"
    then have "reply_edge comments_df r = None"
      by (auto simp: reply_edge_def truthy_def split: option.splits)
    then show "edge_step comments_df r H = Inr H"
      by (rule edge_step_skips[OF assms r])
  qed
  from g edges reply_graph_Inr(2)[OF g] skip show ?thesis by blast
qed

theorem reply_graph_edges_witness:
  "carries_reply_fields (to_dataframe thread_comments) \<and>
   (\<exists>G. reply_graph (to_dataframe thread_comments) = Inr G \<and>
      set (nodes G) = fst ` set (edges G) \<union> snd ` set (edges G) \<and>
      edges G = [(Some ''alice'', Some ''bob''), (Some ''carol'', Some ''alice'')])"
proof -
  have c: "carries_reply_fields (to_dataframe thread_comments)"
    by (simp add: carries_reply_fields_def thread_comments_def to_dataframe_def)
  from reply_graph_edges[OF c] show ?thesis
  proof (elim exE conjE)
    fix G
    assume g: "reply_graph (to_dataframe thread_comments) = Inr G"
      and n: "set (nodes G) = fst ` set (edges G) \<union> snd ` set (edges G)"
    from g thread_graph have "Inr G = (Inr \<lparr>nodes = [Some ''alice'', Some ''bob'', Some ''carol''],
          edges = [(Some ''alice'', Some ''bob''), (Some ''carol'', Some ''alice'')]\<rparr> :: error + digraph)"
      by (rule trans[OF sym])
    then have "G = \<lparr>nodes = [Some ''alice'', Some ''bob'', Some ''carol''],
          edges = [(Some ''alice'', Some ''bob''), (Some ''carol'', Some ''alice'')]\<rparr>"
      by (rule Inr_inject)
    then have "edges G = [(Some ''alice'', Some ''bob''), (Some ''carol'', Some ''alice'')]"
      by simp
    with g n have "reply_graph (to_dataframe thread_comments) = Inr G \<and>
      set (nodes G) = fst ` set (edges G) \<union> snd ` set (edges G) \<and>
      edges G = [(Some ''alice'', Some ''bob''), (Some ''carol'', Some ''alice'')]"
      by (intro conjI)
    then have "\<exists>G. reply_graph (to_dataframe thread_comments) = Inr G \<and>
      set (nodes G) = fst ` set (edges G) \<union> snd ` set (edges G) \<and>
      edges G = [(Some ''alice'', Some ''bob''), (Some ''carol'', Some ''alice'')]"
      by (rule exI[where x = G])
    with c show ?thesis by (rule conjI)
  qed
qed

text \<open>
  C2 as the specification words it does not hold for a record from which the author
  field is absent: reading the field raises KeyError.
\<close>

theorem reply_graph_absent_author:
  "reply_graph (to_dataframe
     [(''comment_c1_post_p1'',
         [''comment_data:id'' \<mapsto> ''c1'', ''comment_data:parent_id'' \<mapsto> ''t3_p1'',
          ''comment_data:text'' \<mapsto> ''first'', ''metrics:score'' \<mapsto> ''1''])])
   = Inl KeyError"
  by (simp add: influence_eval)

text \<open>
  C1, for the authors whose identity is not the empty string. Whenever
  \<open>get_user_influence\<close> returns, the score of such an author in the result is the sum of
  the scores of the posts of the author, times 1, plus the sum of the scores of the
  comments of the author, times 0.5, plus 100 times the centrality of the author in the
  reply graph when the author is a node of it; a sum over no record is 0. The arithmetic
  is that of floating-point numbers: a record without a score counts as NaN, and a sum
  with a NaN in it is NaN. Every score that is present in the two corpora is then the
  text of a number. Of the sort of a list with NaN scores only this is assumed: it
  rearranges the list.
\<close>

theorem get_user_influence_score:
  assumes "rearranges nan_sorted"
    and "get_user_influence nan_sorted pyfloat centrality limit posts comments = Inr out"
    and "(k, v) \<in> set out"
    and "k \<noteq> Some []"
  shows "\<exists>G. reply_graph (to_dataframe comments) = Inr G \<and>
     v = fadd (fadd (fmul (score_sum pyfloat ''post_data:author'' (to_dataframe posts) k) (Some 1))
                    (fmul (score_sum pyfloat ''comment_data:author'' (to_dataframe comments) k)
                          (Some (1 / 2))))
              (fmul (Some (if k \<in> set (nodes G) then centrality G k else 0)) (Some 100)) \<and>
     (\<forall>r \<in> set (to_dataframe posts) \<union> set (to_dataframe comments).
        \<forall>s. r ''metrics:score'' = Some s \<longrightarrow> pyfloat s \<noteq> None)"
proof -
  from get_user_influence_Inr[OF assms(2)] obtain d where
    d: "influence_table pyfloat centrality (to_dataframe posts) (to_dataframe comments) = Inr d"
    and out: "out = py_head limit (sorted_by_score nan_sorted d)"
    by (elim exE conjE)
  from assms(3) out have "(k, v) \<in> set (sorted_by_score nan_sorted d)"
    using set_py_head[of limit "sorted_by_score nan_sorted d"] by (rule_tac subsetD) simp_all
  then have "(k, v) \<in># mset (sorted_by_score nan_sorted d)" by simp
  then have "(k, v) \<in># mset d" unfolding set_sorted_by_score[OF assms(1)] .
  then have mem: "(k, v) \<in> set d" by simp
  from assms(4) have t: "truthy k" by (cases k) (simp_all add: truthy_def)
  from influence_table_Inr[OF d] show ?thesis
  proof (elim exE conjE)
    fix G
    assume g: "reply_graph (to_dataframe comments) = Inr G"
      and dist: "distinct (map fst d)"
      and val: "\<forall>k. dict_get d k =
        fadd (if truthy k then fadd (score_sum pyfloat ''post_data:author'' (to_dataframe posts) k)
                                 (fmul (score_sum pyfloat ''comment_data:author'' (to_dataframe comments) k) (Some (1 / 2)))
              else Some 0)
             (if k \<in> set (nodes G) then Some (centrality G k * 100) else Some 0)"
      and sp: "\<forall>r \<in> set (to_dataframe posts). \<forall>s. r ''metrics:score'' = Some s \<longrightarrow> pyfloat s \<noteq> None"
      and sc: "\<forall>r \<in> set (to_dataframe comments). \<forall>s. r ''metrics:score'' = Some s \<longrightarrow> pyfloat s \<noteq> None"
    from dist mem have "dict_get d k = v" by (rule dict_get_member)
    moreover from val have "dict_get d k =
        fadd (if truthy k then fadd (score_sum pyfloat ''post_data:author'' (to_dataframe posts) k)
                                 (fmul (score_sum pyfloat ''comment_data:author'' (to_dataframe comments) k) (Some (1 / 2)))
              else Some 0)
             (if k \<in> set (nodes G) then Some (centrality G k * 100) else Some 0)"
      by (rule spec)
    ultimately have formula: "v = fadd (fadd (fmul (score_sum pyfloat ''post_data:author'' (to_dataframe posts) k) (Some 1))
                    (fmul (score_sum pyfloat ''comment_data:author'' (to_dataframe comments) k)
                          (Some (1 / 2))))
              (fmul (Some (if k \<in> set (nodes G) then centrality G k else 0)) (Some 100))"
      using t fmul_Some by (cases "k \<in> set (nodes G)") (simp_all add: fmul_one)
    from sp sc have scores: "\<forall>r \<in> set (to_dataframe posts) \<union> set (to_dataframe comments).
        \<forall>s. r ''metrics:score'' = Some s \<longrightarrow> pyfloat s \<noteq> None"
      by (simp add: ball_Un)
    from g formula scores show ?thesis by (intro exI[where x = G] conjI)
  qed
qed

theorem get_user_influence_score_witness:
  "rearranges short_list_sorted \<and>
   get_user_influence short_list_sorted decimal_float betweenness_centrality 5 thread_posts thread_comments
     = Inr [(Some ''alice'', Some 61), (Some ''bob'', Some 22), (Some ''carol'', Some 3)] \<and>
   (\<exists>G. reply_graph (to_dataframe thread_comments) = Inr G \<and>
      Some 61 =
        fadd (fadd (fmul (score_sum decimal_float ''post_data:author'' (to_dataframe thread_posts) (Some ''alice'')) (Some 1))
                   (fmul (score_sum decimal_float ''comment_data:author'' (to_dataframe thread_comments) (Some ''alice''))
                         (Some (1 / 2))))
             (fmul (Some (if Some ''alice'' \<in> set (nodes G) then betweenness_centrality G (Some ''alice'') else 0))
                   (Some 100))) \<and>
   score_sum decimal_float ''post_data:author'' (to_dataframe thread_posts) (Some ''alice'') = Some 10 \<and>
   score_sum decimal_float ''comment_data:author'' (to_dataframe thread_comments) (Some ''alice'') = Some 2 \<and>
   betweenness_centrality
     \<lparr>nodes = [Some ''alice'', Some ''bob'', Some ''carol''],
      edges = [(Some ''alice'', Some ''bob''), (Some ''carol'', Some ''alice'')]\<rparr> (Some ''alice'') = 1 / 2"
proof -
  note sort = rearranges_short_list_sorted
  have run: "get_user_influence short_list_sorted decimal_float betweenness_centrality 5 thread_posts thread_comments
     = Inr [(Some ''alice'', Some 61), (Some ''bob'', Some 22), (Some ''carol'', Some 3)]"
    by (simp add: thread_posts_def thread_comments_def influence_eval centrality_eval del: not_None_eq)
  have mem: "(Some ''alice'', Some 61) \<in> set [(Some ''alice'', Some (61 :: real)), (Some ''bob'', Some 22), (Some ''carol'', Some 3)]"
    by simp
  have named: "Some ''alice'' \<noteq> Some []" by simp
  have formula: "\<exists>G. reply_graph (to_dataframe thread_comments) = Inr G \<and>
      Some 61 =
        fadd (fadd (fmul (score_sum decimal_float ''post_data:author'' (to_dataframe thread_posts) (Some ''alice'')) (Some 1))
                   (fmul (score_sum decimal_float ''comment_data:author'' (to_dataframe thread_comments) (Some ''alice''))
                         (Some (1 / 2))))
             (fmul (Some (if Some ''alice'' \<in> set (nodes G) then betweenness_centrality G (Some ''alice'') else 0))
                   (Some 100))"
    using get_user_influence_score[OF sort run mem named]
  proof (elim exE conjE)
    fix G
    assume g: "reply_graph (to_dataframe thread_comments) = Inr G"
      and v: "Some 61 =
        fadd (fadd (fmul (score_sum decimal_float ''post_data:author'' (to_dataframe thread_posts) (Some ''alice'')) (Some 1))
                   (fmul (score_sum decimal_float ''comment_data:author'' (to_dataframe thread_comments) (Some ''alice''))
                         (Some (1 / 2))))
             (fmul (Some (if Some ''alice'' \<in> set (nodes G) then betweenness_centrality G (Some ''alice'') else 0))
                   (Some 100))"
    from g v show ?thesis by (intro exI[where x = G] conjI)
  qed
  have posts: "score_sum decimal_float ''post_data:author'' (to_dataframe thread_posts) (Some ''alice'') = Some 10"
    by (simp add: score_sum_def score_of_def fsum_def fadd_simps thread_posts_def to_dataframe_def
        decimal_float_def digit_value_def)
  have comments: "score_sum decimal_float ''comment_data:author'' (to_dataframe thread_comments) (Some ''alice'') = Some 2"
    by (simp add: score_sum_def score_of_def fsum_def fadd_simps thread_comments_def to_dataframe_def
        decimal_float_def digit_value_def)
  have between: "betweenness_centrality
     \<lparr>nodes = [Some ''alice'', Some ''bob'', Some ''carol''],
      edges = [(Some ''alice'', Some ''bob''), (Some ''carol'', Some ''alice'')]\<rparr> (Some ''alice'') = 1 / 2"
    by (simp add: centrality_eval Let_def)
  from sort run formula posts comments between show ?thesis by (intro conjI)
qed

text \<open>
  C1 as the specification words it does not hold for the empty string: its comment is
  left out of the sum by the test \<open>if author\<close>, and its score in the result is 0, while
  its comment scores times 0.5 make 5.
\<close>

theorem get_user_influence_empty_author_score:
  "get_user_influence short_list_sorted decimal_float betweenness_centrality 5 [] anonymous_thread
     = Inr [(Some ''bob'', Some (1 / 2)), (Some '''', Some 0)] \<and>
   reply_graph (to_dataframe anonymous_thread)
     = Inr \<lparr>nodes = [Some ''bob'', Some ''''], edges = [(Some ''bob'', Some '''')]\<rparr> \<and>
   fadd (fadd (fmul (score_sum decimal_float ''post_data:author'' (to_dataframe []) (Some '''')) (Some 1))
              (fmul (score_sum decimal_float ''comment_data:author'' (to_dataframe anonymous_thread) (Some ''''))
                    (Some (1 / 2))))
        (fmul (Some (betweenness_centrality
                 \<lparr>nodes = [Some ''bob'', Some ''''], edges = [(Some ''bob'', Some '''')]\<rparr> (Some '''')))
              (Some 100))
     = Some 5"
proof -
  have run: "get_user_influence short_list_sorted decimal_float betweenness_centrality 5 [] anonymous_thread
     = Inr [(Some ''bob'', Some (1 / 2)), (Some '''', Some 0)]"
    by (simp add: anonymous_thread_def influence_eval centrality_eval del: not_None_eq)
  have graph: "reply_graph (to_dataframe anonymous_thread)
     = Inr \<lparr>nodes = [Some ''bob'', Some ''''], edges = [(Some ''bob'', Some '''')]\<rparr>"
    by (simp add: anonymous_thread_def influence_eval)
  have p: "score_sum decimal_float ''post_data:author'' (to_dataframe []) (Some '''') = Some 0"
    by (simp add: score_sum_def fsum_def to_dataframe_def)
  have c: "score_sum decimal_float ''comment_data:author'' (to_dataframe anonymous_thread) (Some '''') = Some 10"
    by (simp add: score_sum_def score_of_def fsum_def fadd_simps anonymous_thread_def to_dataframe_def
        decimal_float_def digit_value_def)
  have b: "betweenness_centrality
         \<lparr>nodes = [Some ''bob'', Some ''''], edges = [(Some ''bob'', Some '''')]\<rparr> (Some '''') = 0"
    by (simp add: centrality_eval Let_def)
  from run graph show ?thesis unfolding p c b by (simp add: fadd_simps fmul_simps)
qed

text \<open>
  C6, for the authors whose identity is not the empty string, the sentinel of a deleted
  account like any other. Whenever \<open>get_user_influence\<close> returns, the result is the slice
  of the sorted dictionary, and such an author is a key of the dictionary exactly when
  the author wrote a post or a comment or is a node of the reply graph.
\<close>

theorem get_user_influence_keys:
  assumes "get_user_influence nan_sorted pyfloat centrality limit posts comments = Inr out"
  shows "\<exists>d G.
     influence_table pyfloat centrality (to_dataframe posts) (to_dataframe comments) = Inr d \<and>
     reply_graph (to_dataframe comments) = Inr G \<and>
     out = py_head limit (sorted_by_score nan_sorted d) \<and>
     (\<forall>a. a \<noteq> [] \<longrightarrow>
        (Some a \<in> fst ` set d \<longleftrightarrow>
           (\<exists>r \<in> set (to_dataframe posts). r ''post_data:author'' = Some a) \<or>
           (\<exists>r \<in> set (to_dataframe comments). r ''comment_data:author'' = Some a) \<or>
           Some a \<in> set (nodes G)))"
proof -
  from get_user_influence_Inr[OF assms(1)] obtain d where
    d: "influence_table pyfloat centrality (to_dataframe posts) (to_dataframe comments) = Inr d"
    and out: "out = py_head limit (sorted_by_score nan_sorted d)"
    by (elim exE conjE)
  from influence_table_Inr[OF d] show ?thesis
  proof (elim exE conjE)
    fix G
    assume g: "reply_graph (to_dataframe comments) = Inr G"
      and keys: "fst ` set d = {k. truthy k \<and> (\<exists>r \<in> set (to_dataframe posts). r ''post_data:author'' = k)}
                 \<union> {k. truthy k \<and> (\<exists>r \<in> set (to_dataframe comments). r ''comment_data:author'' = k)}
                 \<union> set (nodes G)"
    have named: "\<forall>a. a \<noteq> [] \<longrightarrow>
        (Some a \<in> fst ` set d \<longleftrightarrow>
           (\<exists>r \<in> set (to_dataframe posts). r ''post_data:author'' = Some a) \<or>
           (\<exists>r \<in> set (to_dataframe comments). r ''comment_data:author'' = Some a) \<or>
           Some a \<in> set (nodes G))"
      unfolding keys by (simp add: truthy_def)
    from d g out named show ?thesis
      by (intro exI[where x = d] exI[where x = G] conjI)
  qed
qed

theorem get_user_influence_keys_witness:
  "get_user_influence short_list_sorted decimal_float betweenness_centrality 5 deleted_posts deleted_comments
     = Inr [(Some ''[deleted]'', Some 9)] \<and>
   (\<exists>d G. influence_table decimal_float betweenness_centrality
             (to_dataframe deleted_posts) (to_dataframe deleted_comments) = Inr d \<and>
          reply_graph (to_dataframe deleted_comments) = Inr G \<and>
          [(Some ''[deleted]'', Some 9)] = py_head 5 (sorted_by_score short_list_sorted d) \<and>
          Some ''[deleted]'' \<in> fst ` set d)"
proof -
  have run: "get_user_influence short_list_sorted decimal_float betweenness_centrality 5 deleted_posts deleted_comments
     = Inr [(Some ''[deleted]'', Some 9)]"
    by (simp add: deleted_posts_def deleted_comments_def influence_eval centrality_eval del: not_None_eq)
  have author: "\<exists>r \<in> set (to_dataframe deleted_posts). r ''post_data:author'' = Some ''[deleted]''"
    by (simp add: deleted_posts_def to_dataframe_def)
  from get_user_influence_keys[OF run] show ?thesis
  proof (elim exE conjE)
    fix d G
    assume d: "influence_table decimal_float betweenness_centrality
             (to_dataframe deleted_posts) (to_dataframe deleted_comments) = Inr d"
      and g: "reply_graph (to_dataframe deleted_comments) = Inr G"
      and out: "[(Some ''[deleted]'', Some 9)] = py_head 5 (sorted_by_score short_list_sorted d)"
      and named: "\<forall>a. a \<noteq> [] \<longrightarrow>
        (Some a \<in> fst ` set d \<longleftrightarrow>
           (\<exists>r \<in> set (to_dataframe deleted_posts). r ''post_data:author'' = Some a) \<or>
           (\<exists>r \<in> set (to_dataframe deleted_comments). r ''comment_data:author'' = Some a) \<or>
           Some a \<in> set (nodes G))"
    from named have "''[deleted]'' \<noteq> [] \<longrightarrow>
        (Some ''[deleted]'' \<in> fst ` set d \<longleftrightarrow>
           (\<exists>r \<in> set (to_dataframe deleted_posts). r ''post_data:author'' = Some ''[deleted]'') \<or>
           (\<exists>r \<in> set (to_dataframe deleted_comments). r ''comment_data:author'' = Some ''[deleted]'') \<or>
           Some ''[deleted]'' \<in> set (nodes G))"
      by (rule spec)
    with author have k: "Some ''[deleted]'' \<in> fst ` set d" by simp
    from d g out k have "influence_table decimal_float betweenness_centrality
             (to_dataframe deleted_posts) (to_dataframe deleted_comments) = Inr d \<and>
          reply_graph (to_dataframe deleted_comments) = Inr G \<and>
          [(Some ''[deleted]'', Some 9)] = py_head 5 (sorted_by_score short_list_sorted d) \<and>
          Some ''[deleted]'' \<in> fst ` set d"
      by (intro conjI)
    then have "\<exists>d G. influence_table decimal_float betweenness_centrality
             (to_dataframe deleted_posts) (to_dataframe deleted_comments) = Inr d \<and>
          reply_graph (to_dataframe deleted_comments) = Inr G \<and>
          [(Some ''[deleted]'', Some 9)] = py_head 5 (sorted_by_score short_list_sorted d) \<and>
          Some ''[deleted]'' \<in> fst ` set d"
      by (intro exI[where x = d] exI[where x = G])
    with run show ?thesis by (rule conjI)
  qed
qed

text \<open>
  C6 as the specification words it does not hold for the empty string: the only post has
  the empty string as author, the test \<open>if author\<close> skips it, and the result is empty.
\<close>

theorem get_user_influence_skips_empty_author:
  "get_user_influence short_list_sorted decimal_float betweenness_centrality 5
     [(''post_p1'', [''post_data:id'' \<mapsto> ''p1'', ''post_data:author'' \<mapsto> '''',
                     ''metrics:score'' \<mapsto> ''10''])] []
   = Inr []"
  by (simp add: influence_eval)

text \<open>A list of two or more entries with a NaN score is in descending order in no
  arrangement: every comparison with NaN is false.\<close>

lemma nan_breaks_order:
  assumes "rearranges nan_sorted" "(k, None) \<in> set d" "2 \<le> length d"
  shows "\<not> sorted_wrt (\<lambda>a b. fle (snd b) (snd a)) (nan_sorted d)"
proof
  let ?xs = "nan_sorted d"
  assume s: "sorted_wrt (\<lambda>a b. fle (snd b) (snd a)) ?xs"
  from assms(1) have m: "mset ?xs = mset d" by (simp add: rearranges_def)
  from m have "set ?xs = set d" by (rule mset_eq_setD)
  with assms(2) have "(k, None) \<in> set ?xs" by simp
  then obtain i where i: "i < length ?xs" "?xs ! i = (k, None)" by (auto simp: in_set_conv_nth)
  from m have "length ?xs = length d" by (rule mset_eq_length)
  with assms(3) have l: "2 \<le> length ?xs" by simp
  show False
  proof (cases "i = 0")
    case True
    with l have "i < 1" "1 < length ?xs" by simp_all
    with s have "fle (snd (?xs ! 1)) (snd (?xs ! i))" by (simp add: sorted_wrt_iff_nth_less)
    with i(2) show False by (simp add: fle_def split: option.splits)
  next
    case False
    then have "0 < i" by simp
    with s i(1) have "fle (snd (?xs ! i)) (snd (?xs ! 0))" by (simp add: sorted_wrt_iff_nth_less)
    with i(2) show False by (simp add: fle_def)
  qed
qed




end
